theory Spec2Isabelle
  imports Main "HOL-Library.AList"
begin

section \<open>Values: the template document and Python's errors\<close>

text \<open>
  The template is what \<^verbatim>\<open>json.load\<close> returns: a tree of dicts, lists and scalars.
  A dict is an association list in insertion order (Python keeps that order; lookups
  go through \<open>map_of\<close>, stores through \<open>AList.update\<close>, which overwrites in place or
  appends a new key last). Python's \<^verbatim>\<open>None\<close> is \<open>JNull\<close>.
\<close>

datatype json =
    JNull
  | JBool bool
  | JInt int
  | JStr string
  | JList "json list"
  | JObj "(string \<times> json) list"

datatype error =
    OsbsException string
  | OsbsValidationException string
  | KeyError string
  | TypeError
  | ValueError
  | AttributeError
  | IndexError
  | RuntimeError string

text \<open>Truth value of a Python object, as \<^verbatim>\<open>if x:\<close> reads it.\<close>

fun truthy :: "json \<Rightarrow> bool" where
  "truthy JNull = False"
| "truthy (JBool b) = b"
| "truthy (JInt i) = (i \<noteq> 0)"
| "truthy (JStr s) = (s \<noteq> [])"
| "truthy (JList xs) = (xs \<noteq> [])"
| "truthy (JObj kvs) = (kvs \<noteq> [])"

text \<open>A string that may be \<^verbatim>\<open>None\<close>: its truth value and its place in the document.\<close>

fun str_truthy :: "string option \<Rightarrow> bool" where
  "str_truthy None = False"
| "str_truthy (Some s) = (s \<noteq> [])"

fun json_of_str :: "string option \<Rightarrow> json" where
  "json_of_str None = JNull"
| "json_of_str (Some s) = JStr s"

text \<open>A flag that may be \<^verbatim>\<open>None\<close>, \<^verbatim>\<open>True\<close> or \<^verbatim>\<open>False\<close>.\<close>

fun flag :: "bool option \<Rightarrow> bool" where
  "flag None = False"
| "flag (Some b) = b"

subsection \<open>Subscripts and dict methods\<close>

text \<open>
  \<^verbatim>\<open>d[k]\<close> with a string key: a dict looks the key up (\<^verbatim>\<open>KeyError\<close> when it is missing),
  every other value raises \<^verbatim>\<open>TypeError\<close> (a list or a string wants an integer index,
  \<^verbatim>\<open>None\<close>, a number and a boolean are not subscriptable).
\<close>

fun getitem :: "json \<Rightarrow> string \<Rightarrow> error + json" where
  "getitem (JObj kvs) k = (case map_of kvs k of None \<Rightarrow> Inl (KeyError k) | Some v \<Rightarrow> Inr v)"
| "getitem _ k = Inl TypeError"

text \<open>\<^verbatim>\<open>d[k] = v\<close> with a string key.\<close>

fun setitem :: "string \<Rightarrow> json \<Rightarrow> json \<Rightarrow> error + json" where
  "setitem k v (JObj kvs) = Inr (JObj (AList.update k v kvs))"
| "setitem k v _ = Inl TypeError"

text \<open>\<^verbatim>\<open>del d[k]\<close>.\<close>

fun delitem :: "string \<Rightarrow> json \<Rightarrow> error + json" where
  "delitem k (JObj kvs) =
     (case map_of kvs k of None \<Rightarrow> Inl (KeyError k) | Some _ \<Rightarrow> Inr (JObj (AList.delete k kvs)))"
| "delitem k _ = Inl TypeError"

text \<open>\<^verbatim>\<open>d.get(k, default)\<close>, \<^verbatim>\<open>d.pop(k, None)\<close>, \<^verbatim>\<open>d.setdefault(k, default)\<close> and
  \<^verbatim>\<open>d.update(other)\<close>: a value that has no such method raises
  \<^verbatim>\<open>AttributeError\<close>. A list has a \<^verbatim>\<open>pop\<close> of its own, which takes one argument
  at most and so raises \<^verbatim>\<open>TypeError\<close> on the two given here.\<close>

fun dict_get :: "string \<Rightarrow> json \<Rightarrow> json \<Rightarrow> error + json" where
  "dict_get k dflt (JObj kvs) = (case map_of kvs k of None \<Rightarrow> Inr dflt | Some v \<Rightarrow> Inr v)"
| "dict_get k dflt _ = Inl AttributeError"

fun dict_pop :: "string \<Rightarrow> json \<Rightarrow> error + json" where
  "dict_pop k (JObj kvs) = Inr (JObj (AList.delete k kvs))"
| "dict_pop k (JList xs) = Inl TypeError"
| "dict_pop k _ = Inl AttributeError"

fun dict_setdefault :: "string \<Rightarrow> json \<Rightarrow> json \<Rightarrow> error + json" where
  "dict_setdefault k dflt (JObj kvs) =
     (case map_of kvs k of None \<Rightarrow> Inr (JObj (kvs @ [(k, dflt)])) | Some _ \<Rightarrow> Inr (JObj kvs))"
| "dict_setdefault k dflt _ = Inl AttributeError"

fun updates :: "(string \<times> json) list \<Rightarrow> (string \<times> json) list \<Rightarrow> (string \<times> json) list" where
  "updates [] kvs = kvs"
| "updates ((k, v) # other) kvs = updates other (AList.update k v kvs)"

fun dict_update :: "(string \<times> json) list \<Rightarrow> json \<Rightarrow> error + json" where
  "dict_update other (JObj kvs) = Inr (JObj (updates other kvs))"
| "dict_update other _ = Inl AttributeError"

text \<open>\<^verbatim>\<open>xs.append(x)\<close>: a method of a list only.\<close>

fun list_append :: "json \<Rightarrow> json \<Rightarrow> error + json" where
  "list_append x (JList xs) = Inr (JList (xs @ [x]))"
| "list_append x _ = Inl AttributeError"

text \<open>
  In-place mutation below a path of string keys: \<^verbatim>\<open>doc[k1][k2]...\<close> is read with
  \<open>getitem\<close> at each key, the mutation \<open>f\<close> runs on the object found there, and the
  tree is rebuilt around the result. The document is a tree (it comes from
  \<^verbatim>\<open>json.load\<close>), so rebuilding the spine is what the in-place write does.
\<close>

fun modify_at :: "string list \<Rightarrow> (json \<Rightarrow> error + json) \<Rightarrow> json \<Rightarrow> error + json" where
  "modify_at [] f d = f d"
| "modify_at (k # ks) f d =
     (case getitem d k of
        Inl err \<Rightarrow> Inl err
      | Inr sub \<Rightarrow>
          (case modify_at ks f sub of
             Inl err \<Rightarrow> Inl err
           | Inr sub' \<Rightarrow> setitem k sub' d))"

text \<open>Reading below a path, for stating properties: \<open>None\<close> when the path is not there.\<close>

fun get_path :: "string list \<Rightarrow> json \<Rightarrow> json option" where
  "get_path [] d = Some d"
| "get_path (k # ks) d =
     (case getitem d k of Inl _ \<Rightarrow> None | Inr sub \<Rightarrow> get_path ks sub)"

subsection \<open>Strings\<close>

text \<open>\<^verbatim>\<open>os.path.join(a, b)\<close> of \<^verbatim>\<open>posixpath\<close>, for two components.\<close>

definition os_path_join :: "string \<Rightarrow> string \<Rightarrow> string" where
  "os_path_join a b =
     (if b \<noteq> [] \<and> hd b = CHR ''/'' then b
      else if a = [] \<or> last a = CHR ''/'' then a @ b
      else a @ ''/'' @ b)"

text \<open>\<^verbatim>\<open>s.endswith(suffix)\<close>.\<close>

definition endswith :: "string \<Rightarrow> string \<Rightarrow> bool" where
  "endswith s suffix =
     (length suffix \<le> length s \<and> drop (length s - length suffix) s = suffix)"

text \<open>
  \<^verbatim>\<open>s.rsplit(sep, maxsplit)\<close> for a one-character separator: at most \<open>maxsplit\<close> cuts,
  taken from the right. \<open>rsplit1\<close> cuts at the last separator.
\<close>

definition rsplit1 :: "char \<Rightarrow> string \<Rightarrow> (string \<times> string) option" where
  "rsplit1 c s =
     (if c \<in> set s
      then Some (rev (tl (dropWhile (\<lambda>x. x \<noteq> c) (rev s))), rev (takeWhile (\<lambda>x. x \<noteq> c) (rev s)))
      else None)"

fun rsplit :: "char \<Rightarrow> nat \<Rightarrow> string \<Rightarrow> string list" where
  "rsplit c 0 s = [s]"
| "rsplit c (Suc n) s =
     (case rsplit1 c s of None \<Rightarrow> [s] | Some (a, b) \<Rightarrow> rsplit c n a @ [b])"

text \<open>\<^verbatim>\<open>str(n)\<close> of an integer: decimal digits, a minus sign when negative.\<close>

fun digits :: "nat \<Rightarrow> string" where
  "digits n =
     (if n < 10 then [char_of (48 + n)] else digits (n div 10) @ [char_of (48 + n mod 10)])"

definition str_of_int :: "int \<Rightarrow> string" where
  "str_of_int i = (if i < 0 then CHR ''-'' # digits (nat (- i)) else digits (nat i))"

declare digits.simps [simp del]

section \<open>The collaborators the module consumes\<close>

text \<open>
  Reactor configuration data, as far as the module reads it: the keys
  \<^verbatim>\<open>source_registry\<close>, \<^verbatim>\<open>registries_organization\<close>, \<^verbatim>\<open>required_secrets\<close>,
  \<^verbatim>\<open>worker_token_secrets\<close> and \<^verbatim>\<open>flatpak\<close> (\<open>None\<close>: the key is absent; for
  \<^verbatim>\<open>flatpak\<close> the inner option is its \<^verbatim>\<open>base_image\<close>), and whether the dict holds any
  other key (a dict is false exactly when it is empty).
\<close>

record reactor_config =
  rc_source_registry :: "json option"
  rc_registries_organization :: "json option"
  rc_required_secrets :: "string list option"
  rc_worker_token_secrets :: "string list option"
  rc_flatpak :: "string option option"
  rc_other_keys :: bool

definition empty_reactor_config :: reactor_config where
  "empty_reactor_config =
     \<lparr>rc_source_registry = None, rc_registries_organization = None,
      rc_required_secrets = None, rc_worker_token_secrets = None,
      rc_flatpak = None, rc_other_keys = False\<rparr>"

definition rc_truthy :: "reactor_config \<Rightarrow> bool" where
  "rc_truthy rc =
     (rc_source_registry rc \<noteq> None \<or> rc_registries_organization rc \<noteq> None \<or>
      rc_required_secrets rc \<noteq> None \<or> rc_worker_token_secrets rc \<noteq> None \<or>
      rc_flatpak rc \<noteq> None \<or> rc_other_keys rc)"

text \<open>
  The user parameters (\<^verbatim>\<open>osbs.build.user_params\<close>, not part of these sources): field
  \<open>up_x\<close> is \<^verbatim>\<open>self.user_params.x.value\<close>, typed as the docstring of
  \<^verbatim>\<open>set_params\<close> gives it; \<open>None\<close> is Python's \<^verbatim>\<open>None\<close>.
\<close>

record user_params =
  up_name :: "string option"
  up_platform :: "string option"
  up_image_tag :: string
  up_build_imagestream :: "string option"
  up_build_image :: "string option"
  up_reactor_config_override :: "reactor_config option"
  up_reactor_config_map :: "string option"
  up_git_uri :: string
  up_git_ref :: "string option"
  up_git_branch :: "string option"
  up_koji_task_id :: "int option"
  up_release :: "string option"
  up_build_type :: string
  up_worker_deadline :: int
  up_orchestrator_deadline :: int
  up_flatpak :: bool
  up_trigger_imagestreamtag :: "string option"
  up_base_image :: "string option"

text \<open>
  Repository info (\<^verbatim>\<open>set_repo_info\<close>): what \<^verbatim>\<open>adjust_for_repo_info\<close> asks of it.
  \<open>has_release_label\<close>: \<^verbatim>\<open>labels.get_name_and_value(Labels.LABEL_TYPE_RELEASE)\<close> returns
  instead of raising \<^verbatim>\<open>KeyError\<close>.
\<close>

record repo_info =
  is_autorebuild_enabled :: bool
  add_timestamp_to_release :: bool
  has_release_label :: bool

text \<open>
  The keyword arguments of \<^verbatim>\<open>set_params\<close> that \<^verbatim>\<open>BuildRequestV2\<close> reads itself
  (\<open>None\<close>: not passed); \<open>kw_user\<close> stands for the ones only the user parameters read.
\<close>

record 'u kwargs =
  kw_scratch :: "bool option"
  kw_osbs_api :: "(string \<Rightarrow> error + reactor_config) option"
  kw_is_auto :: "bool option"
  kw_triggered_after_koji_task :: "int option"
  kw_skip_build :: "bool option"
  kw_isolated :: "bool option"
  kw_base_image :: "string option"
  kw_platform_node_selector :: "(string \<times> json) list option"
  kw_scratch_build_node_selector :: "(string \<times> json) list option"
  kw_explicit_build_node_selector :: "(string \<times> json) list option"
  kw_auto_build_node_selector :: "(string \<times> json) list option"
  kw_isolated_build_node_selector :: "(string \<times> json) list option"
  kw_user :: 'u

text \<open>
  Everything else the module imports and these sources do not hold: the constants of
  \<^verbatim>\<open>osbs.constants\<close>, the helpers of \<^verbatim>\<open>osbs.utils\<close>, \<^verbatim>\<open>yaml.safe_dump\<close>, the
  methods of the user parameters, the file system and \<^verbatim>\<open>json.load\<close>.
  \<open>read_file path\<close> is \<open>Inl (repr ex)\<close> when opening or reading raises
  \<^verbatim>\<open>IOError\<close>/\<^verbatim>\<open>OSError\<close>; \<open>json_load\<close> is \<open>None\<close> when the text is not JSON
  (\<^verbatim>\<open>ValueError\<close>). \<open>set_iter\<close> is the order in which Python iterates over a set of
  strings, given as a list without repetitions.
\<close>

record 'u env =
  read_file :: "string \<Rightarrow> string + string"
  json_load :: "string \<Rightarrow> json option"
  yaml_safe_dump :: "reactor_config \<Rightarrow> string"
  sanitize_strings_for_openshift :: "string \<Rightarrow> string"
  git_repo_humanish_part_from_uri :: "string \<Rightarrow> string"
  ISOLATED_RELEASE_FORMAT_match :: "string \<Rightarrow> bool"
  ISOLATED_RELEASE_FORMAT_pattern :: string
  SECRETS_PATH :: string
  BUILD_TYPE_WORKER :: string
  BUILD_TYPE_ORCHESTRATOR :: string
  to_json :: "user_params \<Rightarrow> string"
  validate :: "user_params \<Rightarrow> error option"
  user_params_set_params :: "'u kwargs \<Rightarrow> user_params \<Rightarrow> error + user_params"
  set_iter :: "string list \<Rightarrow> string list"

section \<open>The request builder\<close>

text \<open>
  The attributes of a \<^verbatim>\<open>BuildRequestV2\<close> object. A leading underscore of the source is
  written \<open>u_\<close>. \<open>u_template\<close> is \<open>JNull\<close> until the template is loaded.
  \<open>file_reads\<close> is not an attribute: it counts how often the template file has been
  opened successfully, so that the number of reads can be stated.
\<close>

record request =
  build_json_store :: string
  u_outer_template_path :: string
  u_resource_limits :: "(string \<times> json) list option"
  u_template :: json
  isolated :: "bool option"
  organization :: "json option"
  osbs_api :: "(string \<Rightarrow> error + reactor_config) option"
  scratch :: "bool option"
  source_registry :: "json option"
  user_params :: user_params
  build_json :: json
  u_repo_info :: "repo_info option"
  is_auto :: "bool option"
  skip_build :: "bool option"
  base_image :: "string option"
  scratch_build_node_selector :: "(string \<times> json) list"
  explicit_build_node_selector :: "(string \<times> json) list"
  auto_build_node_selector :: "(string \<times> json) list"
  isolated_build_node_selector :: "(string \<times> json) list"
  platform_node_selector :: "(string \<times> json) list"
  triggered_after_koji_task :: "int option"
  file_reads :: nat

text \<open>
  A method is a function from the object's state to a result and the state it leaves:
  \<open>Inl\<close> is the exception raised, and the state beside it holds what had been
  mutated before the raise.
\<close>

type_synonym 'a action = "request \<Rightarrow> (error + 'a) \<times> request"

definition ok :: "'a \<Rightarrow> 'a action" where
  "ok a = (\<lambda>st. (Inr a, st))"

definition raise :: "error \<Rightarrow> 'a action" where
  "raise err = (\<lambda>st. (Inl err, st))"

definition and_then :: "'a action \<Rightarrow> ('a \<Rightarrow> 'b action) \<Rightarrow> 'b action" where
  "and_then m f =
     (\<lambda>st. case m st of (Inl err, st') \<Rightarrow> (Inl err, st') | (Inr a, st') \<Rightarrow> f a st')"

definition seq :: "unit action \<Rightarrow> 'b action \<Rightarrow> 'b action" where
  "seq m n = and_then m (\<lambda>_. n)"

text \<open>A method body that reads attributes of \<^verbatim>\<open>self\<close>: \<open>reading (\<lambda>st. body)\<close> runs
  \<open>body\<close>, which may mention the state \<open>st\<close> it starts in. \<open>assign f\<close> stores into
  attributes.\<close>

definition reading :: "(request \<Rightarrow> 'a action) \<Rightarrow> 'a action" where
  "reading f = (\<lambda>st. f st st)"

definition assign :: "(request \<Rightarrow> request) \<Rightarrow> unit action" where
  "assign f = (\<lambda>st. (Inr (), f st))"

definition apostrophe :: string where
  "apostrophe = [char_of (39 :: nat)]"

text \<open>The \<^verbatim>\<open>template\<close> property.\<close>

definition template :: "'u env \<Rightarrow> json action" where
  "template e = (\<lambda>st.
     if u_template st = JNull then
       (let path = os_path_join (build_json_store st) (u_outer_template_path st) in
        case read_file e path of
          Inl ex \<Rightarrow>
            (Inl (OsbsException
               (''Can'' @ apostrophe @ ''t open template '' @ apostrophe @ path @ apostrophe
                  @ '': '' @ ex)), st)
        | Inr content \<Rightarrow>
            (case json_load e content of
               None \<Rightarrow> (Inl ValueError, st\<lparr>file_reads := Suc (file_reads st)\<rparr>)
             | Some d \<Rightarrow>
                 (Inr d, st\<lparr>u_template := d, file_reads := Suc (file_reads st)\<rparr>)))
     else (Inr (u_template st), st))"

text \<open>A statement that mutates the object behind \<^verbatim>\<open>self.template\<close> in place.\<close>

definition mutate :: "'u env \<Rightarrow> (json \<Rightarrow> error + json) \<Rightarrow> unit action" where
  "mutate e f =
     and_then (template e) (\<lambda>d.
       case f d of
         Inl err \<Rightarrow> raise err
       | Inr d' \<Rightarrow> assign (\<lambda>st. st\<lparr>u_template := d'\<rparr>))"

subsection \<open>\<^verbatim>\<open>BaseBuildRequest\<close>\<close>

text \<open>\<^verbatim>\<open>delete_atomic_reactor_placeholder\<close>: the loop stops at the first entry named
  \<^verbatim>\<open>ATOMIC_REACTOR_PLUGINS\<close> and deletes it; an entry without a \<^verbatim>\<open>name\<close> met before
  that raises.\<close>

fun del_placeholder :: "json list \<Rightarrow> error + json list" where
  "del_placeholder [] = Inr []"
| "del_placeholder (x # xs) =
     (case getitem x ''name'' of
        Inl err \<Rightarrow> Inl err
      | Inr n \<Rightarrow>
          if n = JStr ''ATOMIC_REACTOR_PLUGINS'' then Inr xs
          else (case del_placeholder xs of Inl err \<Rightarrow> Inl err | Inr ys \<Rightarrow> Inr (x # ys)))"

text \<open>The same loop over whatever \<^verbatim>\<open>custom_strategy['env']\<close> holds: iterating an empty
  dict or string does nothing; a non-empty one yields strings, whose subscript
  \<^verbatim>\<open>['name']\<close> raises \<^verbatim>\<open>TypeError\<close>, as iterating any other value does.\<close>

fun del_placeholder_in :: "json \<Rightarrow> error + json" where
  "del_placeholder_in (JList xs) =
     (case del_placeholder xs of Inl err \<Rightarrow> Inl err | Inr ys \<Rightarrow> Inr (JList ys))"
| "del_placeholder_in (JObj []) = Inr (JObj [])"
| "del_placeholder_in (JStr []) = Inr (JStr [])"
| "del_placeholder_in _ = Inl TypeError"

definition env_path :: "string list" where
  "env_path = [''spec'', ''strategy'', ''customStrategy'', ''env'']"

definition delete_atomic_reactor_placeholder :: "'u env \<Rightarrow> unit action" where
  "delete_atomic_reactor_placeholder e = mutate e (modify_at env_path del_placeholder_in)"

definition render_custom_strategy :: "'u env \<Rightarrow> unit action" where
  "render_custom_strategy e = reading (\<lambda>st.
     if str_truthy (up_build_imagestream (user_params st)) then
       seq (mutate e (modify_at [''spec'', ''strategy'', ''customStrategy'', ''from'']
                        (setitem ''kind'' (JStr ''ImageStreamTag''))))
           (mutate e (modify_at [''spec'', ''strategy'', ''customStrategy'', ''from'']
                        (setitem ''name'' (json_of_str (up_build_imagestream (user_params st))))))
     else
       mutate e (modify_at [''spec'', ''strategy'', ''customStrategy'', ''from'']
                   (setitem ''name'' (json_of_str (up_build_image (user_params st))))))"

text \<open>\<^verbatim>\<open>render_name\<close>. The platform suffix is stripped from the image tag when the tag
  ends with it; \<^verbatim>\<open>_, salt, timestamp = name.rsplit('-', 2)\<close> raises \<^verbatim>\<open>ValueError\<close>
  unless the split has three parts.\<close>

definition strip_platform_suffix :: "string option \<Rightarrow> string \<Rightarrow> string" where
  "strip_platform_suffix platform nm =
     (case platform of
        None \<Rightarrow> nm
      | Some p \<Rightarrow>
          if p \<noteq> [] \<and> endswith nm (''-'' @ p)
          then take (length nm - length (''-'' @ p)) nm
          else nm)"

definition render_name :: "'u env \<Rightarrow> unit action" where
  "render_name e = reading (\<lambda>st.
     if flag (scratch st) \<or> flag (isolated st) then
       (case rsplit CHR ''-'' 2
               (strip_platform_suffix (up_platform (user_params st)) (up_image_tag (user_params st))) of
          [_, salt, timestamp] \<Rightarrow>
            mutate e (modify_at [''metadata'']
              (setitem ''name''
                 (JStr (if flag (scratch st) then ''scratch-'' @ salt @ ''-'' @ timestamp
                        else if flag (isolated st) then ''isolated-'' @ salt @ ''-'' @ timestamp
                        else strip_platform_suffix (up_platform (user_params st))
                               (up_image_tag (user_params st))))))
        | _ \<Rightarrow> raise ValueError)
     else
       mutate e (modify_at [''metadata''] (setitem ''name'' (json_of_str (up_name (user_params st))))))"

definition render_output_name :: "'u env \<Rightarrow> unit action" where
  "render_output_name e = reading (\<lambda>st.
     mutate e (modify_at [''spec'', ''output'', ''to'']
                 (setitem ''name'' (JStr (up_image_tag (user_params st))))))"

text \<open>\<^verbatim>\<open>render_resource_limits\<close>: all on the dict \<^verbatim>\<open>self.template['spec']\<close>.\<close>

definition merge_resource_limits :: "(string \<times> json) list \<Rightarrow> json \<Rightarrow> error + json" where
  "merge_resource_limits rl spec =
     (case dict_get ''resources'' (JObj []) spec of
        Inl err \<Rightarrow> Inl err
      | Inr resources \<Rightarrow>
          (case dict_get ''limits'' (JObj []) resources of
             Inl err \<Rightarrow> Inl err
           | Inr limits \<Rightarrow>
               (case dict_update rl limits of
                  Inl err \<Rightarrow> Inl err
                | Inr limits' \<Rightarrow>
                    (case setitem ''limits'' limits' resources of
                       Inl err \<Rightarrow> Inl err
                     | Inr resources' \<Rightarrow> setitem ''resources'' resources' spec))))"

definition render_resource_limits :: "'u env \<Rightarrow> unit action" where
  "render_resource_limits e = reading (\<lambda>st.
     case u_resource_limits st of
       None \<Rightarrow> ok ()
     | Some rl \<Rightarrow> mutate e (modify_at [''spec''] (merge_resource_limits rl)))"

definition render_user_params :: "'u env \<Rightarrow> unit action" where
  "render_user_params e = reading (\<lambda>st.
     mutate e (modify_at env_path
       (list_append (JObj [(''name'', JStr ''USER_PARAMS''),
                           (''value'', JStr (to_json e (user_params st)))]))))"

text \<open>\<^verbatim>\<open>set_label\<close>: a false value becomes the empty string, \<^verbatim>\<open>metadata.labels\<close> is
  created when absent, and the sanitized value is stored.\<close>

definition store_label :: "string \<Rightarrow> json \<Rightarrow> json \<Rightarrow> error + json" where
  "store_label nm v metadata =
     (case dict_setdefault ''labels'' (JObj []) metadata of
        Inl err \<Rightarrow> Inl err
      | Inr metadata' \<Rightarrow> modify_at [''labels''] (setitem nm v) metadata')"

definition set_label :: "'u env \<Rightarrow> string \<Rightarrow> string option \<Rightarrow> unit action" where
  "set_label e nm val =
     mutate e (modify_at [''metadata'']
       (store_label nm
          (JStr (sanitize_strings_for_openshift e
                   (if str_truthy val then (case val of Some s \<Rightarrow> s | None \<Rightarrow> []) else [])))))"

definition adjust_for_scratch :: "'u env \<Rightarrow> unit action" where
  "adjust_for_scratch e = reading (\<lambda>st.
     if flag (scratch st) then
       seq (mutate e (modify_at [''spec''] (dict_pop ''triggers'')))
           (set_label e ''scratch'' (Some ''true''))
     else ok ())"

definition set_deadline :: "'u env \<Rightarrow> int \<Rightarrow> unit action" where
  "set_deadline e deadline_hours =
     (if deadline_hours > 0
      then mutate e (modify_at [''spec'']
             (setitem ''completionDeadlineSeconds'' (JInt (deadline_hours * 3600))))
      else ok ())"

definition BaseBuildRequest_set_params :: "'u kwargs \<Rightarrow> unit action" where
  "BaseBuildRequest_set_params kw =
     assign (\<lambda>st. st\<lparr>scratch := kw_scratch kw, osbs_api := kw_osbs_api kw\<rparr>)"

text \<open>\<^verbatim>\<open>set_reactor_config\<close>. The override is a dict or \<^verbatim>\<open>None\<close>, the config map a
  name or \<^verbatim>\<open>None\<close>; \<open>override_value\<close> is read only where the override is true.\<close>

definition override_truthy :: "reactor_config option \<Rightarrow> bool" where
  "override_truthy ov = (case ov of None \<Rightarrow> False | Some rc \<Rightarrow> rc_truthy rc)"

definition override_value :: "reactor_config option \<Rightarrow> reactor_config" where
  "override_value ov = (case ov of None \<Rightarrow> empty_reactor_config | Some rc \<Rightarrow> rc)"

definition inline_reactor_config :: "'u env \<Rightarrow> reactor_config \<Rightarrow> json" where
  "inline_reactor_config e rc =
     JObj [(''name'', JStr ''REACTOR_CONFIG''), (''value'', JStr (yaml_safe_dump e rc))]"

definition config_map_reactor_config :: "string option \<Rightarrow> json" where
  "config_map_reactor_config reactor_config_map =
     JObj [(''name'', JStr ''REACTOR_CONFIG''),
           (''valueFrom'', JObj [(''configMapKeyRef'',
              JObj [(''name'', json_of_str reactor_config_map),
                    (''key'', JStr ''config.yaml'')])])]"

definition set_reactor_config :: "'u env \<Rightarrow> unit action" where
  "set_reactor_config e = reading (\<lambda>st.
     let reactor_config_override = up_reactor_config_override (user_params st);
         reactor_config_map = up_reactor_config_map (user_params st)
     in
     if \<not> str_truthy reactor_config_map \<and> \<not> override_truthy reactor_config_override
     then ok ()
     else
       mutate e (modify_at env_path
         (list_append
            (if override_truthy reactor_config_override
             then inline_reactor_config e (override_value reactor_config_override)
             else config_map_reactor_config reactor_config_map))))"

text \<open>\<^verbatim>\<open>set_resource_limits\<close>.\<close>

definition set_resource_limits ::
  "json option \<Rightarrow> json option \<Rightarrow> json option \<Rightarrow> unit action" where
  "set_resource_limits cpu memory storage = assign (\<lambda>st.
     let rl0 = (case u_resource_limits st of None \<Rightarrow> [] | Some rl \<Rightarrow> rl);
         rl1 = (case cpu of None \<Rightarrow> rl0 | Some v \<Rightarrow> AList.update ''cpu'' v rl0);
         rl2 = (case memory of None \<Rightarrow> rl1 | Some v \<Rightarrow> AList.update ''memory'' v rl1);
         rl3 = (case storage of None \<Rightarrow> rl2 | Some v \<Rightarrow> AList.update ''storage'' v rl2)
     in st\<lparr>u_resource_limits := Some rl3\<rparr>)"

text \<open>\<^verbatim>\<open>_set_required_secrets\<close>. The names already mounted are collected into a set, so
  each must be hashable; the secrets to add are the required ones not among them,
  appended in the set's iteration order.\<close>

fun hashable :: "json \<Rightarrow> bool" where
  "hashable (JList _) = False"
| "hashable (JObj _) = False"
| "hashable _ = True"

fun existing_names :: "json list \<Rightarrow> error + json list" where
  "existing_names [] = Inr []"
| "existing_names (secret_mount # rest) =
     (case getitem secret_mount ''secretSource'' of
        Inl err \<Rightarrow> Inl err
      | Inr src \<Rightarrow>
          (case getitem src ''name'' of
             Inl err \<Rightarrow> Inl err
           | Inr n \<Rightarrow>
               if \<not> hashable n then Inl TypeError
               else (case existing_names rest of
                       Inl err \<Rightarrow> Inl err
                     | Inr ns \<Rightarrow> Inr (n # ns))))"

definition secret_mount_entry :: "'u env \<Rightarrow> string \<Rightarrow> json" where
  "secret_mount_entry e secret =
     JObj [(''secretSource'', JObj [(''name'', JStr secret)]),
           (''mountPath'', JStr (os_path_join (SECRETS_PATH e) secret))]"

definition missing_secrets :: "'u env \<Rightarrow> string list \<Rightarrow> json list \<Rightarrow> string list" where
  "missing_secrets e required_secrets existing =
     set_iter e (filter (\<lambda>s. JStr s \<notin> set existing) (remdups required_secrets))"

text \<open>On the value of \<^verbatim>\<open>secrets\<close>: a list is iterated and appended to. Iterating an
  empty dict or string finds no name, and the first \<^verbatim>\<open>append\<close> then raises
  \<^verbatim>\<open>AttributeError\<close> (the required names are not empty here); any other value raises
  \<^verbatim>\<open>TypeError\<close> when iterated or when its items are subscripted.\<close>

fun append_missing :: "'u env \<Rightarrow> string list \<Rightarrow> json \<Rightarrow> error + json" where
  "append_missing e required_secrets (JList secrets) =
     (case existing_names secrets of
        Inl err \<Rightarrow> Inl err
      | Inr existing \<Rightarrow>
          Inr (JList (secrets @ map (secret_mount_entry e)
                                    (missing_secrets e required_secrets existing))))"
| "append_missing e required_secrets (JObj []) = Inl AttributeError"
| "append_missing e required_secrets (JStr []) = Inl AttributeError"
| "append_missing e required_secrets _ = Inl TypeError"

definition add_required_secrets :: "'u env \<Rightarrow> string list \<Rightarrow> json \<Rightarrow> error + json" where
  "add_required_secrets e required_secrets custom_strategy =
     (case dict_setdefault ''secrets'' (JList []) custom_strategy of
        Inl err \<Rightarrow> Inl err
      | Inr custom_strategy' \<Rightarrow>
          modify_at [''secrets''] (append_missing e required_secrets) custom_strategy')"

definition u_set_required_secrets :: "'u env \<Rightarrow> string list \<Rightarrow> unit action" where
  "u_set_required_secrets e required_secrets =
     (if required_secrets = [] then ok ()
      else mutate e (modify_at [''spec'', ''strategy'', ''customStrategy'']
                       (add_required_secrets e required_secrets)))"

text \<open>
  The dict \<^verbatim>\<open>reactor_config_data\<close> that \<^verbatim>\<open>render\<close> hands to
  \<^verbatim>\<open>set_data_from_reactor_config\<close> is either the very object the user parameters hold
  as \<^verbatim>\<open>reactor_config_override\<close>, or another dict (what the config map returned, or
  a fresh \<^verbatim>\<open>{}\<close>). Which object it is matters where it is mutated in place, so the
  methods take a reference and read the dict through it.
\<close>

datatype data_ref = The_override | Another reactor_config

definition data_of :: "request \<Rightarrow> data_ref \<Rightarrow> reactor_config" where
  "data_of st ref =
     (case ref of
        The_override \<Rightarrow> override_value (up_reactor_config_override (user_params st))
      | Another rc \<Rightarrow> rc)"

definition set_source_registry :: "data_ref \<Rightarrow> unit action" where
  "set_source_registry reactor_config_data = reading (\<lambda>st.
     case rc_source_registry (data_of st reactor_config_data) of
       None \<Rightarrow> ok ()
     | Some v \<Rightarrow> assign (\<lambda>s. s\<lparr>source_registry := Some v\<rparr>))"

definition set_registry_organization :: "data_ref \<Rightarrow> unit action" where
  "set_registry_organization reactor_config_data = reading (\<lambda>st.
     case rc_registries_organization (data_of st reactor_config_data) of
       None \<Rightarrow> ok ()
     | Some v \<Rightarrow> assign (\<lambda>s. s\<lparr>organization := Some v\<rparr>))"

text \<open>\<^verbatim>\<open>get_reactor_config_data\<close> returns the override object itself when it is
  true. Otherwise the config map comes from the API handle
  (\<^verbatim>\<open>get_config_map(name).get_data_by_key('config.yaml')\<close>, which returns the data or
  raises); without a handle the attribute lookup on \<^verbatim>\<open>None\<close> raises.\<close>

definition get_reactor_config_data :: "data_ref action" where
  "get_reactor_config_data = reading (\<lambda>st.
     let reactor_config_override = up_reactor_config_override (user_params st);
         reactor_config_map = up_reactor_config_map (user_params st)
     in
     if override_truthy reactor_config_override
     then ok The_override
     else if str_truthy reactor_config_map then
       (case osbs_api st of
          None \<Rightarrow> raise AttributeError
        | Some get_config_map_data \<Rightarrow>
            (case get_config_map_data (case reactor_config_map of Some m \<Rightarrow> m | None \<Rightarrow> []) of
               Inl err \<Rightarrow> raise err
             | Inr data \<Rightarrow> ok (Another data)))
     else ok (Another empty_reactor_config))"

subsection \<open>\<^verbatim>\<open>BuildRequestV2\<close>\<close>

text \<open>\<^verbatim>\<open>set_required_secrets\<close> (the override of \<^verbatim>\<open>BuildRequestV2\<close>). For an
  orchestrator build \<^verbatim>\<open>required_secrets += token_secrets\<close> extends the list in place.
  When the data has the key \<^verbatim>\<open>required_secrets\<close> that list is the data's own: if the
  data is the override object, the override holds the longer list afterwards; if it is
  another dict, nothing reads that dict's list again. Without the key the list is the
  fresh default \<^verbatim>\<open>[]\<close>.\<close>

definition set_required_secrets :: "'u env \<Rightarrow> data_ref \<Rightarrow> unit action" where
  "set_required_secrets e reactor_config_data = reading (\<lambda>st.
     let data = data_of st reactor_config_data;
         required_secrets = (case rc_required_secrets data of None \<Rightarrow> [] | Some r \<Rightarrow> r);
         token_secrets = (case rc_worker_token_secrets data of None \<Rightarrow> [] | Some t \<Rightarrow> t)
     in
     if up_build_type (user_params st) = BUILD_TYPE_ORCHESTRATOR e then
       seq (if reactor_config_data = The_override \<and> rc_required_secrets data \<noteq> None
            then assign (\<lambda>s. s\<lparr>user_params := (user_params s)\<lparr>up_reactor_config_override :=
                   Some (data\<lparr>rc_required_secrets := Some (required_secrets @ token_secrets)\<rparr>)\<rparr>\<rparr>)
            else ok ())
           (u_set_required_secrets e (required_secrets @ token_secrets))
     else u_set_required_secrets e required_secrets)"

definition BaseBuildRequest_set_data_from_reactor_config ::
  "'u env \<Rightarrow> data_ref \<Rightarrow> unit action" where
  "BaseBuildRequest_set_data_from_reactor_config e reactor_config_data =
     seq (set_source_registry reactor_config_data)
       (seq (set_registry_organization reactor_config_data)
          (set_required_secrets e reactor_config_data))"

definition u_set_flatpak :: "data_ref \<Rightarrow> unit action" where
  "u_set_flatpak reactor_config_data = reading (\<lambda>st.
     if up_flatpak (user_params st) then
       (let flatpack_base_image =
              (case rc_flatpak (data_of st reactor_config_data) of None \<Rightarrow> None | Some b \<Rightarrow> b)
        in if str_truthy flatpack_base_image
           then assign (\<lambda>s. s\<lparr>base_image := flatpack_base_image,
                               user_params := (user_params s)\<lparr>up_base_image := flatpack_base_image\<rparr>\<rparr>)
           else raise (OsbsValidationException ''flatpak_base_image must be provided''))
     else ok ())"

definition set_data_from_reactor_config :: "'u env \<Rightarrow> data_ref \<Rightarrow> unit action" where
  "set_data_from_reactor_config e reactor_config_data =
     seq (BaseBuildRequest_set_data_from_reactor_config e reactor_config_data)
       (reading (\<lambda>st.
          if \<not> rc_truthy (data_of st reactor_config_data) then
            (if up_flatpak (user_params st)
             then raise (OsbsValidationException ''flatpak_base_image must be provided'')
             else ok ())
          else u_set_flatpak reactor_config_data))"

text \<open>\<^verbatim>\<open>BaseBuildRequest.render\<close>, as \<^verbatim>\<open>BuildRequestV2.render\<close> calls it through
  \<^verbatim>\<open>super\<close>: the methods it calls on \<^verbatim>\<open>self\<close> are those of \<^verbatim>\<open>BuildRequestV2\<close>.\<close>

definition BaseBuildRequest_render :: "'u env \<Rightarrow> bool \<Rightarrow> json action" where
  "BaseBuildRequest_render e do_validate =
     seq (reading (\<lambda>st. if osbs_api st = None
                         then raise (OsbsValidationException ''OSBS API is not specified'')
                         else ok ()))
    (seq (reading (\<lambda>st. if do_validate
                         then (case validate e (user_params st) of
                                 Some err \<Rightarrow> raise err
                               | None \<Rightarrow> ok ())
                         else ok ()))
    (seq (render_name e)
    (seq (render_output_name e)
    (seq (render_custom_strategy e)
    (seq (render_resource_limits e)
    (seq (adjust_for_scratch e)
    (seq (set_reactor_config e)
    (seq (render_user_params e)
    (seq (delete_atomic_reactor_placeholder e)
    (and_then get_reactor_config_data (\<lambda>data.
     seq (set_data_from_reactor_config e data)
         (template e))))))))))))"

text \<open>\<^verbatim>\<open>validate_build_variation\<close>: \<^verbatim>\<open>variations.count(True)\<close> counts the flags that
  equal \<^verbatim>\<open>True\<close>.\<close>

definition count_True :: "bool option list \<Rightarrow> nat" where
  "count_True variations = length (filter (\<lambda>v. v = Some True) variations)"

definition validate_build_variation :: "unit action" where
  "validate_build_variation = reading (\<lambda>st.
     if count_True [scratch st, is_auto st, isolated st] > 1
     then raise (OsbsValidationException
             (''Build variations are mutually exclusive. '' @
              ''Must set either scratch, is_auto, isolated, or none. ''))
     else ok ())"

text \<open>\<^verbatim>\<open>set_params\<close> (the override of \<^verbatim>\<open>BuildRequestV2\<close>). A selector that is not
  passed defaults to the empty dict, \<^verbatim>\<open>is_auto\<close> and \<^verbatim>\<open>skip_build\<close> to
  \<^verbatim>\<open>False\<close>.\<close>

definition set_params :: "'u env \<Rightarrow> 'u kwargs \<Rightarrow> unit action" where
  "set_params e kw =
     seq (BaseBuildRequest_set_params kw)
    (seq (assign (\<lambda>st. st\<lparr>is_auto := (case kw_is_auto kw of None \<Rightarrow> Some False | Some b \<Rightarrow> Some b),
                           triggered_after_koji_task := kw_triggered_after_koji_task kw,
                           skip_build := (case kw_skip_build kw of None \<Rightarrow> Some False | Some b \<Rightarrow> Some b),
                           isolated := kw_isolated kw\<rparr>))
    (seq validate_build_variation
    (seq (assign (\<lambda>st. st\<lparr>base_image := kw_base_image kw,
                           platform_node_selector :=
                             (case kw_platform_node_selector kw of None \<Rightarrow> [] | Some d \<Rightarrow> d),
                           scratch_build_node_selector :=
                             (case kw_scratch_build_node_selector kw of None \<Rightarrow> [] | Some d \<Rightarrow> d),
                           explicit_build_node_selector :=
                             (case kw_explicit_build_node_selector kw of None \<Rightarrow> [] | Some d \<Rightarrow> d),
                           auto_build_node_selector :=
                             (case kw_auto_build_node_selector kw of None \<Rightarrow> [] | Some d \<Rightarrow> d),
                           isolated_build_node_selector :=
                             (case kw_isolated_build_node_selector kw of None \<Rightarrow> [] | Some d \<Rightarrow> d)\<rparr>))
         (reading (\<lambda>st. case user_params_set_params e kw (user_params st) of
                           Inl err \<Rightarrow> raise err
                         | Inr up \<Rightarrow> assign (\<lambda>s. s\<lparr>user_params := up\<rparr>))))))"

definition set_repo_info :: "repo_info option \<Rightarrow> unit action" where
  "set_repo_info repo_info = assign (\<lambda>st. st\<lparr>u_repo_info := repo_info\<rparr>)"

text \<open>\<^verbatim>\<open>has_ist_trigger\<close>. A true value of \<^verbatim>\<open>triggers\<close> that is not a list raises
  \<^verbatim>\<open>TypeError\<close> when iterated or when its items are subscripted.\<close>

fun any_ist_trigger :: "json list \<Rightarrow> error + bool" where
  "any_ist_trigger [] = Inr False"
| "any_ist_trigger (trigger # rest) =
     (case getitem trigger ''type'' of
        Inl err \<Rightarrow> Inl err
      | Inr ty \<Rightarrow>
          if ty = JStr ''ImageChange'' then
            (case getitem trigger ''imageChange'' of
               Inl err \<Rightarrow> Inl err
             | Inr ic \<Rightarrow>
                 (case getitem ic ''from'' of
                    Inl err \<Rightarrow> Inl err
                  | Inr fr \<Rightarrow>
                      (case getitem fr ''kind'' of
                         Inl err \<Rightarrow> Inl err
                       | Inr kd \<Rightarrow>
                           if kd = JStr ''ImageStreamTag'' then Inr True
                           else any_ist_trigger rest)))
          else any_ist_trigger rest)"

text \<open>\<^verbatim>\<open>self.template['spec'].get('triggers', [])\<close>.\<close>

definition spec_triggers :: "json \<Rightarrow> error + json" where
  "spec_triggers d =
     (case getitem d ''spec'' of
        Inl err \<Rightarrow> Inl err
      | Inr spec \<Rightarrow> dict_get ''triggers'' (JList []) spec)"

definition has_ist_trigger :: "'u env \<Rightarrow> bool action" where
  "has_ist_trigger e =
     and_then (template e) (\<lambda>d.
       case spec_triggers d of
         Inl err \<Rightarrow> raise err
       | Inr triggers \<Rightarrow>
           if \<not> truthy triggers then ok False
           else (case triggers of
                   JList ts \<Rightarrow>
                     (case any_ist_trigger ts of Inl err \<Rightarrow> raise err | Inr found \<Rightarrow> ok found)
                 | _ \<Rightarrow> raise TypeError))"

text \<open>\<^verbatim>\<open>self.template['spec']['triggers'][0]['imageChange']['from']['name'] = v\<close>.\<close>

fun set_first_trigger_name :: "json \<Rightarrow> json \<Rightarrow> error + json" where
  "set_first_trigger_name v (JList (trigger # rest)) =
     (case modify_at [''imageChange'', ''from''] (setitem ''name'' v) trigger of
        Inl err \<Rightarrow> Inl err
      | Inr trigger' \<Rightarrow> Inr (JList (trigger' # rest)))"
| "set_first_trigger_name v (JList []) = Inl IndexError"
| "set_first_trigger_name v (JObj _) = Inl (KeyError ''0'')"
| "set_first_trigger_name v _ = Inl TypeError"

text \<open>\<^verbatim>\<open>is_custom_base_image\<close>:
  \<^verbatim>\<open>re.match('^koji/image-build(:.*)?$', self.base_image or '')\<close>. The dot matches no
  newline, and \<^verbatim>\<open>$\<close> matches at the end or before a newline that ends the string.\<close>

definition newline :: char where
  "newline = char_of (10 :: nat)"

definition at_dollar :: "string \<Rightarrow> bool" where
  "at_dollar s = (s = [] \<or> s = [newline])"

definition custom_base_image_match :: "string \<Rightarrow> bool" where
  "custom_base_image_match s =
     (take 16 s = ''koji/image-build'' \<and>
      (let rest = drop 16 s in
       at_dollar rest \<or>
       (case rest of
          [] \<Rightarrow> False
        | c # r \<Rightarrow>
            c = CHR '':'' \<and>
            (newline \<notin> set r \<or> (r \<noteq> [] \<and> last r = newline \<and> newline \<notin> set (butlast r))))))"

definition is_custom_base_image :: "request \<Rightarrow> bool" where
  "is_custom_base_image st =
     custom_base_image_match (if str_truthy (base_image st)
                              then (case base_image st of Some b \<Rightarrow> b | None \<Rightarrow> [])
                              else [])"

definition is_from_scratch_image :: "request \<Rightarrow> bool" where
  "is_from_scratch_image st = (base_image st = Some ''scratch'')"

text \<open>The step of \<^verbatim>\<open>render\<close> that removes the triggers for a custom or scratch base
  image.\<close>

definition adjust_triggers_for_base_image :: "'u env \<Rightarrow> unit action" where
  "adjust_triggers_for_base_image e =
     and_then (template e) (\<lambda>d.
       case spec_triggers d of
         Inl err \<Rightarrow> raise err
       | Inr triggers \<Rightarrow>
           reading (\<lambda>st.
             if truthy triggers \<and> (is_custom_base_image st \<or> is_from_scratch_image st)
             then mutate e (modify_at [''spec''] (delitem ''triggers''))
             else ok ()))"

definition adjust_for_repo_info :: "'u env \<Rightarrow> unit action" where
  "adjust_for_repo_info e = reading (\<lambda>st.
     case u_repo_info st of
       None \<Rightarrow> ok ()
     | Some info \<Rightarrow>
         if \<not> is_autorebuild_enabled info
         then mutate e (modify_at [''spec''] (dict_pop ''triggers''))
         else if add_timestamp_to_release info then ok ()
         else if has_release_label info
         then raise (RuntimeError
                 (''when autorebuild is enabled in repo configuration, '' @
                  [char_of (34 :: nat)] @ ''release'' @ [char_of (34 :: nat)] @
                  '' label must not be set in Dockerfile''))
         else ok ())"

definition adjust_for_isolated :: "'u env \<Rightarrow> string option \<Rightarrow> unit action" where
  "adjust_for_isolated e release = reading (\<lambda>st.
     if \<not> flag (isolated st) then ok ()
     else
       seq (mutate e (modify_at [''spec''] (dict_pop ''triggers'')))
         (if \<not> str_truthy release
          then raise (OsbsValidationException
                        ''The release parameter is required for isolated builds.'')
          else if \<not> ISOLATED_RELEASE_FORMAT_match e (case release of Some r \<Rightarrow> r | None \<Rightarrow> [])
          then raise (OsbsValidationException
                        (''For isolated builds, the release value must be in the format: '' @
                         ISOLATED_RELEASE_FORMAT_pattern e))
          else seq (set_label e ''isolated'' (Some ''true''))
                   (set_label e ''isolated-release'' release)))"

text \<open>\<^verbatim>\<open>render_node_selectors\<close>. The chosen selector dict itself is stored in the
  document, so the \<^verbatim>\<open>update\<close> with the platform selector changes the attribute it
  came from as well.\<close>

definition render_node_selectors :: "'u env \<Rightarrow> string \<Rightarrow> unit action" where
  "render_node_selectors e build_type = reading (\<lambda>st.
     if build_type = BUILD_TYPE_WORKER e then
       seq (mutate e (modify_at [''spec'']
              (setitem ''nodeSelector''
                 (JObj (if flag (is_auto st) then auto_build_node_selector st
                        else if flag (scratch st) then scratch_build_node_selector st
                        else if flag (isolated st) then isolated_build_node_selector st
                        else explicit_build_node_selector st)))))
         (if platform_node_selector st \<noteq> [] then
            seq (mutate e (modify_at [''spec'', ''nodeSelector'']
                   (dict_update (platform_node_selector st))))
              (assign (\<lambda>s.
                 if flag (is_auto st)
                 then s\<lparr>auto_build_node_selector :=
                          updates (platform_node_selector st) (auto_build_node_selector st)\<rparr>
                 else if flag (scratch st)
                 then s\<lparr>scratch_build_node_selector :=
                          updates (platform_node_selector st) (scratch_build_node_selector st)\<rparr>
                 else if flag (isolated st)
                 then s\<lparr>isolated_build_node_selector :=
                          updates (platform_node_selector st) (isolated_build_node_selector st)\<rparr>
                 else s\<lparr>explicit_build_node_selector :=
                          updates (platform_node_selector st) (explicit_build_node_selector st)\<rparr>))
          else ok ())
     else ok ())"

definition u_set_deadline :: "'u env \<Rightarrow> unit action" where
  "u_set_deadline e = reading (\<lambda>st.
     set_deadline e (if up_build_type (user_params st) = BUILD_TYPE_WORKER e
                     then up_worker_deadline (user_params st)
                     else up_orchestrator_deadline (user_params st)))"

text \<open>\<^verbatim>\<open>BuildRequestV2.render\<close>.\<close>

definition render_labels :: "'u env \<Rightarrow> unit action" where
  "render_labels e = reading (\<lambda>st.
     seq (set_label e ''git-repo-name''
            (Some (git_repo_humanish_part_from_uri e (up_git_uri (user_params st)))))
    (seq (set_label e ''git-branch'' (up_git_branch (user_params st)))
    (seq (set_label e ''git-full-repo'' (Some (up_git_uri (user_params st))))
         (case up_koji_task_id (user_params st) of
            None \<Rightarrow> ok ()
          | Some koji_task_id \<Rightarrow>
              seq (set_label e ''koji-task-id'' (Some (str_of_int koji_task_id)))
                  (if triggered_after_koji_task st = None
                   then set_label e ''original-koji-task-id'' (Some (str_of_int koji_task_id))
                   else ok ())))))"

definition render :: "'u env \<Rightarrow> bool \<Rightarrow> json action" where
  "render e do_validate =
     and_then (BaseBuildRequest_render e do_validate) (\<lambda>_.
     seq (reading (\<lambda>st. mutate e (modify_at [''spec'', ''source'', ''git'']
                           (setitem ''uri'' (JStr (up_git_uri (user_params st)))))))
    (seq (reading (\<lambda>st. mutate e (modify_at [''spec'', ''source'', ''git'']
                           (setitem ''ref'' (json_of_str (up_git_ref (user_params st)))))))
    (seq (and_then (has_ist_trigger e) (\<lambda>ist.
            if ist
            then reading (\<lambda>st. mutate e (modify_at [''spec'', ''triggers'']
                   (set_first_trigger_name
                      (json_of_str (up_trigger_imagestreamtag (user_params st))))))
            else ok ()))
    (seq (render_labels e)
    (seq (adjust_triggers_for_base_image e)
    (seq (adjust_for_repo_info e)
    (seq (reading (\<lambda>st. adjust_for_isolated e (up_release (user_params st))))
    (seq (reading (\<lambda>st. render_node_selectors e (up_build_type (user_params st))))
    (seq (u_set_deadline e)
         (and_then (template e) (\<lambda>d.
            seq (assign (\<lambda>st. st\<lparr>build_json := d\<rparr>)) (ok d))))))))))))"

section \<open>Vocabulary for the statements\<close>

text \<open>The document the \<^verbatim>\<open>template\<close> property returns in a state (\<open>None\<close> when the
  load raises), and the state the access leaves.\<close>

definition cur :: "'u env \<Rightarrow> request \<Rightarrow> json option" where
  "cur e st = (case fst (template e st) of Inl _ \<Rightarrow> None | Inr d \<Rightarrow> Some d)"

definition loaded :: "'u env \<Rightarrow> request \<Rightarrow> request" where
  "loaded e st = snd (template e st)"

text \<open>Two paths that part ways at some key: a write below one leaves what is below
  the other alone.\<close>

fun diverge :: "string list \<Rightarrow> string list \<Rightarrow> bool" where
  "diverge (a # p) (b # q) = (a \<noteq> b \<or> diverge p q)"
| "diverge _ _ = False"

text \<open>\<open>spec.triggers\<close> and \<open>metadata.labels\<close> of a document.\<close>

definition triggers_of :: "json \<Rightarrow> json option" where
  "triggers_of d = get_path [''spec'', ''triggers''] d"

definition labels_of :: "json \<Rightarrow> (string \<times> json) list" where
  "labels_of d =
     (case get_path [''metadata'', ''labels''] d of Some (JObj ls) \<Rightarrow> ls | _ \<Rightarrow> [])"

text \<open>A successful run of a method started where \<open>P\<close> holds ends where \<open>Q\<close> holds.\<close>

definition hoare :: "(request \<Rightarrow> bool) \<Rightarrow> 'a action \<Rightarrow> ('a \<Rightarrow> request \<Rightarrow> bool) \<Rightarrow> bool" where
  "hoare P m Q = (\<forall>st a st'. P st \<longrightarrow> m st = (Inr a, st') \<longrightarrow> Q a st')"

text \<open>
  What one step of rendering may do to the document. Between the document before and
  the one after, the triggers are gone, or as they were, or were a true value and
  still are one; and every label is a sanitized string or a label that was there
  before.
\<close>

definition trig_rel :: "json \<Rightarrow> json \<Rightarrow> bool" where
  "trig_rel d d' =
     (triggers_of d' = None \<or> triggers_of d' = triggers_of d \<or>
      (\<exists>t t'. triggers_of d = Some t \<and> triggers_of d' = Some t' \<and> truthy t \<and> truthy t'))"

definition label_rel :: "'u env \<Rightarrow> json \<Rightarrow> json \<Rightarrow> bool" where
  "label_rel e d d' =
     (\<forall>kv \<in> set (labels_of d').
        (\<exists>s. snd kv = JStr (sanitize_strings_for_openshift e s)) \<or> kv \<in> set (labels_of d))"

text \<open>The attributes no step of rendering assigns.\<close>

definition static ::
  "request \<Rightarrow> bool option \<times> bool option \<times> bool option \<times> repo_info option \<times> int option
     \<times> string \<times> string" where
  "static st =
     (scratch st, isolated st, is_auto st, u_repo_info st, triggered_after_koji_task st,
      build_json_store st, u_outer_template_path st)"

definition post :: "'u env \<Rightarrow> request \<Rightarrow> request \<Rightarrow> bool" where
  "post e st st' =
     (static st' = static st \<and>
      (\<forall>d. cur e st = Some d \<longrightarrow>
         (\<exists>d'. cur e st' = Some d' \<and> trig_rel d d' \<and> label_rel e d d')))"

definition step_ok :: "'u env \<Rightarrow> 'a action \<Rightarrow> bool" where
  "step_ok e m = (\<forall>st a st'. m st = (Inr a, st') \<longrightarrow> post e st st')"

definition doc_ok :: "'u env \<Rightarrow> (json \<Rightarrow> error + json) \<Rightarrow> bool" where
  "doc_ok e g =
     (\<forall>d d'. g d = Inr d' \<longrightarrow> d' \<noteq> JNull \<and> trig_rel d d' \<and> label_rel e d d')"

text \<open>A step that leaves \<^verbatim>\<open>self.base_image\<close> alone.\<close>

definition base_kept :: "'a action \<Rightarrow> bool" where
  "base_kept m = (\<forall>st r st'. m st = (r, st') \<longrightarrow> base_image st' = base_image st)"

text \<open>States whose document has no triggers, and states whose document has no triggers
  or a true value for them.\<close>

definition no_triggers :: "'u env \<Rightarrow> request \<Rightarrow> bool" where
  "no_triggers e st = (\<exists>d. cur e st = Some d \<and> triggers_of d = None)"

definition live_triggers :: "'u env \<Rightarrow> request \<Rightarrow> bool" where
  "live_triggers e st =
     (\<exists>d. cur e st = Some d \<and> (case triggers_of d of None \<Rightarrow> True | Some t \<Rightarrow> truthy t))"

section \<open>A concrete builder, for evaluating the model\<close>

definition example_template :: json where
  "example_template =
     JObj [(''metadata'', JObj [(''name'', JStr ''{{NAME}}'')]),
           (''spec'', JObj
              [(''source'', JObj [(''git'', JObj [(''uri'', JStr ''{{GIT_URI}}'')])]),
               (''strategy'', JObj [(''customStrategy'', JObj
                  [(''from'', JObj [(''kind'', JStr ''DockerImage''), (''name'', JStr ''buildroot'')]),
                   (''env'', JList [JObj [(''name'', JStr ''ATOMIC_REACTOR_PLUGINS''),
                                          (''value'', JStr ''TBD'')]])])]),
               (''output'', JObj [(''to'', JObj [(''kind'', JStr ''DockerImage'')])]),
               (''triggers'', JList
                  [JObj [(''type'', JStr ''ImageChange''),
                         (''imageChange'', JObj [(''from'',
                            JObj [(''kind'', JStr ''ImageStreamTag''),
                                  (''name'', JStr ''{{BASE_IMAGE_STREAM}}'')])])]])])]"

definition example_params :: user_params where
  "example_params =
     \<lparr>up_name = Some ''reponame-master'', up_platform = None,
      up_image_tag = ''myimage-abc123-20200101000000'',
      up_build_imagestream = None, up_build_image = Some ''buildroot:latest'',
      up_reactor_config_override = None, up_reactor_config_map = None,
      up_git_uri = ''https://github.com/user/reponame.git'', up_git_ref = Some ''master'',
      up_git_branch = Some ''master'', up_koji_task_id = None, up_release = None,
      up_build_type = ''worker'', up_worker_deadline = 3, up_orchestrator_deadline = 4,
      up_flatpak = False, up_trigger_imagestreamtag = Some ''base:latest'',
      up_base_image = Some ''fedora:latest''\<rparr>"

text \<open>A release format for the example: digits, a dot, digits, and optionally a dot
  and a non-empty suffix.\<close>

definition is_digit :: "char \<Rightarrow> bool" where
  "is_digit c = (c \<in> set ''0123456789'')"

definition example_release_format :: "string \<Rightarrow> bool" where
  "example_release_format release =
     (let major = takeWhile is_digit release; r1 = dropWhile is_digit release in
      major \<noteq> [] \<and>
      (case r1 of
         [] \<Rightarrow> False
       | c # r2 \<Rightarrow>
           c = CHR ''.'' \<and>
           (let minor = takeWhile is_digit r2; r3 = dropWhile is_digit r2 in
            minor \<noteq> [] \<and>
            (case r3 of [] \<Rightarrow> True | c' # suffix \<Rightarrow> c' = CHR ''.'' \<and> suffix \<noteq> []))))"

text \<open>A serializer for the example: it writes out the required secrets of the dict.\<close>

definition example_yaml :: "reactor_config \<Rightarrow> string" where
  "example_yaml rc =
     ''required_secrets: '' @
     concat (case rc_required_secrets rc of None \<Rightarrow> [] | Some names \<Rightarrow> names)"

definition example_env :: "unit env" where
  "example_env =
     \<lparr>read_file = (\<lambda>path. if path = ''/store/prod.json'' then Inr ''template''
                           else if path = ''/store/null.json'' then Inr ''null''
                           else if path = ''/store/broken.json'' then Inr ''{''
                           else Inl ''IOError()''),
      json_load = (\<lambda>content. if content = ''template'' then Some example_template
                              else if content = ''null'' then Some JNull
                              else None),
      yaml_safe_dump = example_yaml,
      sanitize_strings_for_openshift = filter (\<lambda>c. c \<noteq> CHR ''/''),
      git_repo_humanish_part_from_uri = (\<lambda>uri. ''reponame''),
      ISOLATED_RELEASE_FORMAT_match = example_release_format,
      ISOLATED_RELEASE_FORMAT_pattern = ''<digits>.<digits>[.<suffix>]'',
      SECRETS_PATH = ''/var/run/secrets/atomic-reactor'',
      BUILD_TYPE_WORKER = ''worker'',
      BUILD_TYPE_ORCHESTRATOR = ''orchestrator'',
      to_json = (\<lambda>up. ''{}''),
      validate = (\<lambda>up. None),
      user_params_set_params = (\<lambda>kw up. Inr up),
      set_iter = (\<lambda>names. names)\<rparr>"

definition example_request :: request where
  "example_request =
     \<lparr>build_json_store = ''/store'', u_outer_template_path = ''prod.json'',
      u_resource_limits = None, u_template = JNull, isolated = None,
      organization = None, osbs_api = Some (\<lambda>name. Inr empty_reactor_config),
      scratch = None, source_registry = None, user_params = example_params,
      build_json = JNull, u_repo_info = None, is_auto = Some False,
      skip_build = Some False, base_image = Some ''fedora:latest'',
      scratch_build_node_selector = [], explicit_build_node_selector = [],
      auto_build_node_selector = [], isolated_build_node_selector = [],
      platform_node_selector = [], triggered_after_koji_task = None,
      file_reads = 0\<rparr>"

definition example_kwargs :: "unit kwargs" where
  "example_kwargs =
     \<lparr>kw_scratch = None, kw_osbs_api = Some (\<lambda>name. Inr empty_reactor_config),
      kw_is_auto = None, kw_triggered_after_koji_task = None, kw_skip_build = None,
      kw_isolated = None, kw_base_image = Some ''fedora:latest'',
      kw_platform_node_selector = None, kw_scratch_build_node_selector = None,
      kw_explicit_build_node_selector = None, kw_auto_build_node_selector = None,
      kw_isolated_build_node_selector = None, kw_user = ()\<rparr>"

text \<open>A template whose custom strategy already mounts secrets.\<close>

definition example_mounted_template :: "json list \<Rightarrow> json" where
  "example_mounted_template secrets =
     JObj [(''metadata'', JObj []),
           (''spec'', JObj [(''strategy'', JObj [(''customStrategy'',
              JObj [(''env'', JList []), (''secrets'', JList secrets)])])])]"

section \<open>Sequencing\<close>

lemma seq_apply:
  "seq m n st = (case m st of (Inl err, st') \<Rightarrow> (Inl err, st') | (Inr a, st') \<Rightarrow> n st')"
  by (simp add: seq_def and_then_def)

lemma and_then_apply:
  "and_then m f st = (case m st of (Inl err, st') \<Rightarrow> (Inl err, st') | (Inr a, st') \<Rightarrow> f a st')"
  by (simp add: and_then_def)

lemma ok_apply [simp]: "ok a st = (Inr a, st)"
  by (simp add: ok_def)

lemma raise_apply [simp]: "raise err st = (Inl err, st)"
  by (simp add: raise_def)

lemma reading_apply [simp]: "reading f st = f st st"
  by (simp add: reading_def)

lemma assign_apply [simp]: "assign f st = (Inr (), f st)"
  by (simp add: assign_def)

lemma and_then_InrD:
  assumes "and_then m f st = (Inr b, st')"
  obtains a st1 where "m st = (Inr a, st1)" and "f a st1 = (Inr b, st')"
  using assms by (auto simp: and_then_apply split: prod.splits sum.splits)

lemma seq_InrD:
  assumes "seq m n st = (Inr b, st')"
  obtains st1 where "m st = (Inr (), st1)" and "n st1 = (Inr b, st')"
  using assms by (auto simp: seq_apply split: prod.splits sum.splits)

section \<open>Subscripts\<close>

lemmas path_simps = modify_at.simps(2) get_path.simps(2)

declare path_simps [simp del]

lemma getitem_Inr_iff:
  "getitem d k = Inr v \<longleftrightarrow> (\<exists>kvs. d = JObj kvs \<and> map_of kvs k = Some v)"
  by (cases d) (auto split: option.splits)

lemma setitem_Inr_iff:
  "setitem k v d = Inr d' \<longleftrightarrow> (\<exists>kvs. d = JObj kvs \<and> d' = JObj (AList.update k v kvs))"
  by (cases d) auto

lemma getitem_setitem:
  "setitem k v d = Inr d' \<Longrightarrow> getitem d' k' = (if k' = k then Inr v else getitem d k')"
  by (auto simp: setitem_Inr_iff update_conv')

lemma getitem_dict_pop:
  "dict_pop k d = Inr d' \<Longrightarrow> getitem d' k' = (if k' = k then Inl (KeyError k) else getitem d k')"
  by (cases d) (auto simp: delete_conv')

lemma getitem_delitem:
  "delitem k d = Inr d' \<Longrightarrow> getitem d' k' = (if k' = k then Inl (KeyError k) else getitem d k')"
  by (cases d) (auto simp: delete_conv' split: option.splits)

lemma getitem_dict_setdefault:
  "dict_setdefault k dflt d = Inr d' \<Longrightarrow>
     getitem d' k' = (if k' = k \<and> getitem d k = Inl (KeyError k) then Inr dflt else getitem d k')"
  by (cases d) (auto simp: map_add_def split: option.splits)

lemma modify_at_Cons_Inr:
  "modify_at (k # ks) f d = Inr d' \<longleftrightarrow>
     (\<exists>kvs sub sub'. d = JObj kvs \<and> map_of kvs k = Some sub \<and> modify_at ks f sub = Inr sub'
        \<and> d' = JObj (AList.update k sub' kvs))"
  by (cases d) (auto simp: path_simps split: option.splits sum.splits)

lemma modify_at_not_JNull: "modify_at (k # ks) f d = Inr d' \<Longrightarrow> d' \<noteq> JNull"
  unfolding modify_at_Cons_Inr by auto

lemma get_path_modify_at:
  "modify_at p f d = Inr d' \<Longrightarrow>
     \<exists>v v'. get_path p d = Some v \<and> f v = Inr v' \<and> get_path p d' = Some v'"
proof (induction p arbitrary: d d')
  case Nil
  then show ?case by simp
next
  case (Cons k ks)
  from Cons.prems obtain kvs sub sub' where
    d: "d = JObj kvs" "map_of kvs k = Some sub" "modify_at ks f sub = Inr sub'"
       "d' = JObj (AList.update k sub' kvs)"
    unfolding modify_at_Cons_Inr by blast
  from Cons.IH[OF d(3)] d show ?case by (auto simp: update_conv' path_simps)
qed

lemma modify_at_succeeds:
  "get_path p d = Some v \<Longrightarrow> f v = Inr v' \<Longrightarrow> \<exists>d'. modify_at p f d = Inr d'"
proof (induction p arbitrary: d)
  case Nil
  then show ?case by simp
next
  case (Cons k ks)
  then show ?case
    by (cases d) (fastforce simp: path_simps split: option.splits sum.splits)+
qed

lemma get_path_modify_at_diverge:
  "modify_at p f d = Inr d' \<Longrightarrow> diverge p q \<Longrightarrow> get_path q d' = get_path q d"
proof (induction p arbitrary: d d' q)
  case Nil
  then show ?case by simp
next
  case (Cons k ks)
  from Cons.prems(1) obtain kvs sub sub' where
    d: "d = JObj kvs" "map_of kvs k = Some sub" "modify_at ks f sub = Inr sub'"
       "d' = JObj (AList.update k sub' kvs)"
    unfolding modify_at_Cons_Inr by blast
  from Cons.prems(2) obtain k' q' where q: "q = k' # q'" by (cases q) auto
  show ?case
  proof (cases "k' = k")
    case True
    with Cons.prems(2) q have "diverge ks q'" by simp
    from Cons.IH[OF d(3) this] d q True show ?thesis by (simp add: update_conv' path_simps)
  next
    case False
    with d q show ?thesis by (simp add: update_conv' path_simps)
  qed
qed

text \<open>A mutation that touches one key of the object it runs on.\<close>

lemma get_path_modify_at_key:
  assumes "modify_at p f d = Inr d'"
    and "\<And>v v' k'. f v = Inr v' \<Longrightarrow> k' \<noteq> k \<Longrightarrow> getitem v' k' = getitem v k'"
    and "diverge (p @ [k]) q"
  shows "get_path q d' = get_path q d"
  using assms(1,3)
proof (induction p arbitrary: d d' q)
  case Nil
  then obtain k' q' where q: "q = k' # q'" "k' \<noteq> k" by (cases q) auto
  with Nil assms(2)[of d d' k'] show ?case by (simp add: path_simps)
next
  case (Cons a ks)
  from Cons.prems(1) obtain kvs sub sub' where
    d: "d = JObj kvs" "map_of kvs a = Some sub" "modify_at ks f sub = Inr sub'"
       "d' = JObj (AList.update a sub' kvs)"
    unfolding modify_at_Cons_Inr by blast
  from Cons.prems(2) obtain k' q' where q: "q = k' # q'" by (cases q) auto
  show ?case
  proof (cases "k' = a")
    case True
    with Cons.prems(2) q have "diverge (ks @ [k]) q'" by simp
    from Cons.IH[OF d(3) this] d q True show ?thesis by (simp add: update_conv' path_simps)
  next
    case False
    with d q show ?thesis by (simp add: update_conv' path_simps)
  qed
qed

section \<open>The template property and in-place mutation\<close>

lemma template_when_loaded:
  "u_template st \<noteq> JNull \<Longrightarrow> template e st = (Inr (u_template st), st)"
  by (simp add: template_def)

lemma template_cur: "cur e st = Some d \<Longrightarrow> template e st = (Inr d, loaded e st)"
  by (cases "template e st") (auto simp: cur_def loaded_def split: sum.splits)

lemma template_Inr_cur: "template e st = (Inr d, st') \<Longrightarrow> cur e st = Some d \<and> loaded e st = st'"
  by (simp add: cur_def loaded_def)

lemma loaded_shape:
  "loaded e st = st\<lparr>u_template := u_template (loaded e st), file_reads := file_reads (loaded e st)\<rparr>"
  by (auto simp: loaded_def template_def Let_def split: sum.splits option.splits)

lemma u_template_loaded: "cur e st = Some d \<Longrightarrow> u_template (loaded e st) = d"
  by (auto simp: cur_def loaded_def template_def Let_def split: sum.splits option.splits if_splits)

lemma cur_loaded: "cur e st = Some d \<Longrightarrow> d \<noteq> JNull \<Longrightarrow> cur e (loaded e st) = Some d"
  using u_template_loaded[of e st d] by (simp add: cur_def template_when_loaded)

lemma cur_when_loaded: "u_template st \<noteq> JNull \<Longrightarrow> cur e st = Some (u_template st)"
  by (simp add: cur_def template_when_loaded)

lemma loaded_when_loaded: "u_template st \<noteq> JNull \<Longrightarrow> loaded e st = st"
  by (simp add: loaded_def template_when_loaded)

lemma mutate_cur:
  "cur e st = Some d \<Longrightarrow>
     mutate e f st =
       (case f d of
          Inl err \<Rightarrow> (Inl err, loaded e st)
        | Inr d' \<Rightarrow> (Inr (), (loaded e st)\<lparr>u_template := d'\<rparr>))"
  by (simp add: mutate_def and_then_apply template_cur split: sum.splits)

lemma mutate_InrD:
  assumes "mutate e f st = (Inr u, st')"
  obtains d d' where "cur e st = Some d" and "f d = Inr d'"
    and "st' = (loaded e st)\<lparr>u_template := d'\<rparr>"
  using assms
  by (auto simp: mutate_def and_then_apply cur_def loaded_def split: prod.splits sum.splits)

lemma loaded_fields [simp]:
  "scratch (loaded e st) = scratch st"
  "isolated (loaded e st) = isolated st"
  "is_auto (loaded e st) = is_auto st"
  "base_image (loaded e st) = base_image st"
  "user_params (loaded e st) = user_params st"
  "osbs_api (loaded e st) = osbs_api st"
  "u_repo_info (loaded e st) = u_repo_info st"
  "u_resource_limits (loaded e st) = u_resource_limits st"
  "triggered_after_koji_task (loaded e st) = triggered_after_koji_task st"
  "platform_node_selector (loaded e st) = platform_node_selector st"
  "auto_build_node_selector (loaded e st) = auto_build_node_selector st"
  "scratch_build_node_selector (loaded e st) = scratch_build_node_selector st"
  "isolated_build_node_selector (loaded e st) = isolated_build_node_selector st"
  "explicit_build_node_selector (loaded e st) = explicit_build_node_selector st"
  "build_json (loaded e st) = build_json st"
  by (subst loaded_shape, simp)+

section \<open>Strings\<close>

lemma rsplit1_at_last:
  "c \<notin> set b \<Longrightarrow> rsplit1 c (a @ c # b) = Some (a, b)"
proof -
  assume nb: "c \<notin> set b"
  then have all: "\<forall>x\<in>set (rev b). x \<noteq> c" by auto
  have t: "takeWhile (\<lambda>x. x \<noteq> c) (rev b @ c # rev a) = rev b"
    using all by (simp add: takeWhile_tail)
  have dr: "dropWhile (\<lambda>x. x \<noteq> c) (rev b @ c # rev a) = c # rev a"
    using all by (simp add: dropWhile_append3)
  show ?thesis
    unfolding rsplit1_def using t dr by simp
qed

lemma rsplit_two_cuts:
  "c \<notin> set salt \<Longrightarrow> c \<notin> set timestamp \<Longrightarrow>
     rsplit c 2 (h @ c # salt @ c # timestamp) = [h, salt, timestamp]"
proof -
  assume a: "c \<notin> set salt" "c \<notin> set timestamp"
  have "rsplit1 c ((h @ c # salt) @ c # timestamp) = Some (h @ c # salt, timestamp)"
    using a(2) by (rule rsplit1_at_last)
  moreover have "rsplit1 c (h @ c # salt) = Some (h, salt)"
    using a(1) by (rule rsplit1_at_last)
  ultimately show ?thesis by (simp add: numeral_2_eq_2)
qed

lemma two_dashes_split:
  assumes "2 \<le> length (filter (\<lambda>x. x = c) s)"
  shows "\<exists>h salt timestamp. s = h @ c # salt @ c # timestamp \<and> c \<notin> set salt \<and> c \<notin> set timestamp"
proof -
  have "c \<in> set s"
  proof (rule ccontr)
    assume "c \<notin> set s"
    then have "filter (\<lambda>x. x = c) s = []" by (auto simp: filter_empty_conv)
    with assms show False by simp
  qed
  then obtain a b where s: "s = a @ c # b" "c \<notin> set b" by (auto dest: split_list_last)
  from s(2) have "filter (\<lambda>x. x = c) b = []" by (auto simp: filter_empty_conv)
  with assms s(1) have "1 \<le> length (filter (\<lambda>x. x = c) a)" by simp
  have "c \<in> set a"
  proof (rule ccontr)
    assume "c \<notin> set a"
    then have "filter (\<lambda>x. x = c) a = []" by (auto simp: filter_empty_conv)
    with \<open>1 \<le> length (filter (\<lambda>x. x = c) a)\<close> show False by simp
  qed
  then obtain h salt where a: "a = h @ c # salt" "c \<notin> set salt" by (auto dest: split_list_last)
  with s show ?thesis by auto
qed

lemma cur_stored: "d' \<noteq> JNull \<Longrightarrow> cur e (st\<lparr>u_template := d'\<rparr>) = Some d'"
  by (simp add: cur_when_loaded)

lemma loaded_stored: "d' \<noteq> JNull \<Longrightarrow> loaded e (st\<lparr>u_template := d'\<rparr>) = st\<lparr>u_template := d'\<rparr>"
  by (simp add: loaded_when_loaded)

lemma modify_at_result:
  assumes "get_path p d = Some v" and "f v = Inr v'"
  shows "\<exists>d'. modify_at p f d = Inr d' \<and> get_path p d' = Some v'"
proof -
  from modify_at_succeeds[of p d v f v'] assms obtain d' where d': "modify_at p f d = Inr d'" by blast
  from get_path_modify_at[of p f d d'] d' assms have "get_path p d' = Some v'" by auto
  with d' show ?thesis by blast
qed

lemma map_of_updates: "map_of (updates p b) = map_of b ++ map_of (rev p)"
proof (induction p arbitrary: b)
  case Nil
  then show ?case by simp
next
  case (Cons kv p)
  obtain k v where kv: "kv = (k, v)" by (cases kv)
  have "map_of (updates (kv # p) b) = map_of (AList.update k v b) ++ map_of (rev p)"
    using Cons.IH[of "AList.update k v b"] kv by simp
  also have "\<dots> = map_of b ++ map_of (rev (kv # p))"
    by (rule ext) (auto simp: kv update_conv' map_add_def split: option.splits)
  finally show ?case .
qed

lemma map_of_rev_distinct: "distinct (map fst p) \<Longrightarrow> map_of (rev p) = map_of p"
proof (induction p)
  case Nil
  then show ?case by simp
next
  case (Cons kv p)
  obtain k v where kv: "kv = (k, v)" by (cases kv)
  from Cons.prems kv have notin: "k \<notin> fst ` set p" and dist: "distinct (map fst p)" by auto
  from notin have none: "map_of p k = None" by (simp add: map_of_eq_None_iff)
  show ?case
    by (rule ext) (auto simp: kv Cons.IH[OF dist] map_add_def none split: option.splits)
qed

section \<open>Labels and triggers of a document\<close>

lemma get_path_single: "get_path [k] d = Some v \<longleftrightarrow> getitem d k = Inr v"
  by (auto simp: path_simps split: sum.splits)

lemma store_label_key:
  "store_label nm v m = Inr m' \<Longrightarrow> k' \<noteq> ''labels'' \<Longrightarrow> getitem m' k' = getitem m k'"
  by (cases m)
     (auto simp: store_label_def update_conv' map_add_def path_simps split: option.splits sum.splits if_splits)

lemma store_label_labels:
  assumes "store_label nm v m = Inr m'"
  shows "\<exists>ls. getitem m' ''labels'' = Inr (JObj (AList.update nm v ls)) \<and>
              (getitem m ''labels'' = Inr (JObj ls) \<or>
               (getitem m ''labels'' = Inl (KeyError ''labels'') \<and> ls = []))"
proof -
  from assms obtain kvs where m: "m = JObj kvs"
    by (cases m) (auto simp: store_label_def)
  show ?thesis
  proof (cases "map_of kvs ''labels''")
    case None
    with assms m show ?thesis
      by (auto simp: store_label_def update_conv' map_add_def path_simps split: sum.splits)
  next
    case (Some l)
    with assms m obtain ls where "l = JObj ls"
      by (cases l) (auto simp: store_label_def path_simps split: sum.splits)
    with assms m Some show ?thesis
      by (auto simp: store_label_def update_conv' path_simps split: sum.splits)
  qed
qed

lemma set_label_doc:
  assumes "modify_at [''metadata''] (store_label nm v) d = Inr d'"
  shows "labels_of d' = AList.update nm v (labels_of d)"
    and "diverge [''metadata'', ''labels''] q \<Longrightarrow> get_path q d' = get_path q d"
    and "\<exists>md' ls. getitem d' ''metadata'' = Inr (JObj md') \<and> map_of md' ''labels'' = Some (JObj ls)"
proof -
  from get_path_modify_at[OF assms] obtain m m' where
    m: "get_path [''metadata''] d = Some m" "store_label nm v m = Inr m'"
       "get_path [''metadata''] d' = Some m'" by blast
  from store_label_labels[OF m(2)] obtain ls where
    ls: "getitem m' ''labels'' = Inr (JObj (AList.update nm v ls))"
        "getitem m ''labels'' = Inr (JObj ls) \<or>
           (getitem m ''labels'' = Inl (KeyError ''labels'') \<and> ls = [])" by blast
  from m(1,3) have g: "getitem d ''metadata'' = Inr m" "getitem d' ''metadata'' = Inr m'"
    by (simp_all only: get_path_single)
  from ls g show "labels_of d' = AList.update nm v (labels_of d)"
    by (auto simp: labels_of_def path_simps)
  from ls(1) g(2) show "\<exists>md' ls. getitem d' ''metadata'' = Inr (JObj md') \<and> map_of md' ''labels'' = Some (JObj ls)"
    by (auto simp: getitem_Inr_iff)
  show "diverge [''metadata'', ''labels''] q \<Longrightarrow> get_path q d' = get_path q d"
    using get_path_modify_at_key[OF assms, of "''labels''" q] store_label_key
    by simp
qed

lemma set_label_doc_succeeds:
  assumes "getitem d ''metadata'' = Inr (JObj md)"
    and "map_of md ''labels'' = None \<or> (\<exists>ls. map_of md ''labels'' = Some (JObj ls))"
  shows "\<exists>d'. modify_at [''metadata''] (store_label nm v) d = Inr d'"
proof -
  from assms(2) have "\<exists>m'. store_label nm v (JObj md) = Inr m'"
    by (auto simp: store_label_def map_add_def path_simps)
  then obtain m' where "store_label nm v (JObj md) = Inr m'" ..
  with assms(1) show ?thesis
    by (auto simp: getitem_Inr_iff path_simps)
qed

lemma labels_lookup:
  "get_path [''metadata'', ''labels'', nm] d =
     (case get_path [''metadata'', ''labels''] d of
        Some (JObj ls) \<Rightarrow> map_of ls nm
      | _ \<Rightarrow> None)"
  by (auto simp: path_simps split: sum.splits option.splits json.splits)

lemma pop_triggers_doc:
  assumes "modify_at [''spec''] (dict_pop ''triggers'') d = Inr d'"
  shows "triggers_of d' = None"
    and "diverge [''spec'', ''triggers''] q \<Longrightarrow> get_path q d' = get_path q d"
proof -
  from get_path_modify_at[OF assms] obtain s s' where
    s: "get_path [''spec''] d = Some s" "dict_pop ''triggers'' s = Inr s'"
       "get_path [''spec''] d' = Some s'" by blast
  from s(3) have "getitem d' ''spec'' = Inr s'" by (simp only: get_path_single)
  with getitem_dict_pop[OF s(2), of "''triggers''"] show "triggers_of d' = None"
    by (simp add: triggers_of_def path_simps)
  show "diverge [''spec'', ''triggers''] q \<Longrightarrow> get_path q d' = get_path q d"
    using get_path_modify_at_key[OF assms, of "''triggers''" q] getitem_dict_pop
    by simp
qed

lemma pop_triggers_succeeds:
  "getitem d ''spec'' = Inr (JObj sp) \<Longrightarrow> \<exists>d'. modify_at [''spec''] (dict_pop ''triggers'') d = Inr d'"
  by (auto simp: getitem_Inr_iff path_simps)

lemma set_label_cur:
  "cur e st = Some d \<Longrightarrow>
   set_label e nm val st =
     (case modify_at [''metadata'']
             (store_label nm (JStr (sanitize_strings_for_openshift e
                (if str_truthy val then (case val of Some s \<Rightarrow> s | None \<Rightarrow> []) else [])))) d of
        Inl err \<Rightarrow> (Inl err, loaded e st)
      | Inr d' \<Rightarrow> (Inr (), (loaded e st)\<lparr>u_template := d'\<rparr>))"
  by (simp add: set_label_def mutate_cur)

section \<open>Required secrets\<close>

lemma modify_at_id:
  "get_path p d = Some v \<Longrightarrow> f v = Inr v \<Longrightarrow> modify_at p f d = Inr d"
proof (induction p arbitrary: d)
  case Nil
  then show ?case by simp
next
  case (Cons k ks)
  from Cons.prems(1) obtain kvs sub where
    d: "d = JObj kvs" "map_of kvs k = Some sub" "get_path ks sub = Some v"
    by (cases d) (auto simp: path_simps split: option.splits)
  from Cons.IH[OF d(3) Cons.prems(2)] d show ?case
    by (simp add: path_simps update_triv)
qed

lemma get_path_append:
  "get_path (p @ q) d = (case get_path p d of None \<Rightarrow> None | Some v \<Rightarrow> get_path q v)"
  by (induction p arbitrary: d) (auto simp: path_simps split: sum.splits)

lemma existing_names_entries:
  "existing_names (map (secret_mount_entry e) ns) = Inr (map JStr ns)"
  by (induction ns) (simp_all add: secret_mount_entry_def)

lemma existing_names_append:
  "existing_names xs = Inr ex \<Longrightarrow>
     existing_names (xs @ map (secret_mount_entry e) ns) = Inr (ex @ map JStr ns)"
proof (induction xs arbitrary: ex)
  case Nil
  then show ?case by (simp add: existing_names_entries)
next
  case (Cons x xs)
  then show ?case
    by (auto split: sum.splits if_splits)
qed

lemma missing_secrets_set:
  assumes "\<forall>xs. distinct xs \<longrightarrow> distinct (set_iter e xs) \<and> set (set_iter e xs) = set xs"
  shows "distinct (missing_secrets e req ex)"
    and "set (missing_secrets e req ex) = {n \<in> set req. JStr n \<notin> set ex}"
proof -
  have "distinct (filter (\<lambda>s. JStr s \<notin> set ex) (remdups req))" by simp
  with assms show "distinct (missing_secrets e req ex)"
    and "set (missing_secrets e req ex) = {n \<in> set req. JStr n \<notin> set ex}"
    unfolding missing_secrets_def by auto
qed

lemma missing_secrets_again:
  assumes "\<forall>xs. distinct xs \<longrightarrow> distinct (set_iter e xs) \<and> set (set_iter e xs) = set xs"
  shows "missing_secrets e req (ex @ map JStr (missing_secrets e req ex)) = []"
proof -
  have "filter (\<lambda>s. JStr s \<notin> set (ex @ map JStr (missing_secrets e req ex))) (remdups req) = []"
    using missing_secrets_set(2)[OF assms, of req ex] by (auto simp: filter_empty_conv)
  moreover from assms have "set (set_iter e []) = set []" by (metis distinct.simps(1))
  ultimately show ?thesis by (simp add: missing_secrets_def)
qed

lemma os_path_join_plain:
  "a \<noteq> [] \<Longrightarrow> last a \<noteq> CHR ''/'' \<Longrightarrow> \<not> (b \<noteq> [] \<and> hd b = CHR ''/'') \<Longrightarrow>
     os_path_join a b = a @ ''/'' @ b"
  by (auto simp: os_path_join_def)

lemma distinct_set_singleton:
  assumes "distinct xs" and "set xs = {a}"
  shows "xs = [a]"
proof (cases xs)
  case Nil
  with assms(2) show ?thesis by simp
next
  case (Cons x l)
  with assms have x: "x = a" and sub: "set l \<subseteq> {a}" and notin: "x \<notin> set l" by auto
  from sub notin x have "l = []" by (cases l) auto
  with Cons x show ?thesis by simp
qed

section \<open>The claims\<close>

text \<open>
  C1. \<^verbatim>\<open>BuildRequestV2.set_params\<close> raises the validation error of
  \<^verbatim>\<open>validate_build_variation\<close> exactly when more than one of the flags scratch,
  is_auto and isolated is \<^verbatim>\<open>True\<close>. Otherwise its only error is whatever the user
  parameters' own \<^verbatim>\<open>set_params\<close> raises. In every case the template document, the
  rendered document and the count of template reads are as before the call: the check
  comes before any mutation of the document.
\<close>

theorem set_params_build_variation:
  fixes e :: "'u env" and kw :: "'u kwargs" and st :: request
  defines "s \<equiv> kw_scratch kw = Some True"
    and "a \<equiv> kw_is_auto kw = Some True"
    and "i \<equiv> kw_isolated kw = Some True"
  shows "((s \<and> a) \<or> (s \<and> i) \<or> (a \<and> i) \<longrightarrow>
            fst (set_params e kw st) =
              Inl (OsbsValidationException
                (''Build variations are mutually exclusive. '' @
                 ''Must set either scratch, is_auto, isolated, or none. '')))
       \<and> (\<not> ((s \<and> a) \<or> (s \<and> i) \<or> (a \<and> i)) \<longrightarrow>
            fst (set_params e kw st) =
              (case user_params_set_params e kw (user_params st) of
                 Inl err \<Rightarrow> Inl err | Inr up \<Rightarrow> Inr ()))
       \<and> u_template (snd (set_params e kw st)) = u_template st
       \<and> file_reads (snd (set_params e kw st)) = file_reads st
       \<and> build_json (snd (set_params e kw st)) = build_json st"
  unfolding s_def a_def i_def
  by (auto simp: set_params_def seq_apply BaseBuildRequest_set_params_def
      validate_build_variation_def count_True_def split: option.splits sum.splits)

theorem set_params_build_variation_witness:
  "fst (set_params example_env (example_kwargs\<lparr>kw_scratch := Some True, kw_isolated := Some True\<rparr>)
         example_request) =
     Inl (OsbsValidationException
       (''Build variations are mutually exclusive. '' @
        ''Must set either scratch, is_auto, isolated, or none. ''))
   \<and> fst (set_params example_env (example_kwargs\<lparr>kw_isolated := Some True\<rparr>) example_request) = Inr ()
   \<and> fst (set_params example_env example_kwargs example_request) = Inr ()"
  using set_params_build_variation
          [of "example_kwargs\<lparr>kw_scratch := Some True, kw_isolated := Some True\<rparr>"
              example_env example_request]
        set_params_build_variation
          [of "example_kwargs\<lparr>kw_isolated := Some True\<rparr>" example_env example_request]
        set_params_build_variation [of example_kwargs example_env example_request]
  by (simp add: example_kwargs_def example_env_def)

lemma endswith_iff: "endswith s suffix \<longleftrightarrow> (\<exists>pre. s = pre @ suffix)"
proof
  assume "endswith s suffix"
  then have "drop (length s - length suffix) s = suffix"
    by (simp add: endswith_def)
  then have "s = take (length s - length suffix) s @ suffix"
    using append_take_drop_id[of "length s - length suffix" s] by simp
  then show "\<exists>pre. s = pre @ suffix" ..
next
  assume "\<exists>pre. s = pre @ suffix"
  then show "endswith s suffix" by (auto simp: endswith_def)
qed

lemma strip_platform_suffix_stripped:
  "p \<noteq> [] \<Longrightarrow> strip_platform_suffix (Some p) (stem @ ''-'' @ p) = stem"
proof -
  assume "p \<noteq> []"
  moreover have "endswith (stem @ ''-'' @ p) (''-'' @ p)"
    unfolding endswith_iff by blast
  ultimately show ?thesis by (simp add: strip_platform_suffix_def)
qed

lemma strip_platform_suffix_kept:
  assumes "\<forall>p pre. platform = Some p \<and> p \<noteq> [] \<longrightarrow> tag \<noteq> pre @ ''-'' @ p"
  shows "strip_platform_suffix platform tag = tag"
proof (cases platform)
  case None
  then show ?thesis by (simp add: strip_platform_suffix_def)
next
  case (Some p)
  show ?thesis
  proof (cases "p = []")
    case True
    with Some show ?thesis by (simp add: strip_platform_suffix_def)
  next
    case False
    with assms Some have "\<not> endswith tag (''-'' @ p)"
      unfolding endswith_iff by blast
    with Some show ?thesis by (simp add: strip_platform_suffix_def)
  qed
qed

lemma render_name_of_stripped:
  assumes "flag (scratch st) \<or> flag (isolated st)"
    and "strip_platform_suffix (up_platform (user_params st)) (up_image_tag (user_params st))
           = h @ ''-'' @ salt @ ''-'' @ timestamp"
    and "CHR ''-'' \<notin> set salt" and "CHR ''-'' \<notin> set timestamp"
    and "cur e st = Some d" and "getitem d ''metadata'' = Inr (JObj md)"
  shows "fst (render_name e st) = Inr () \<and>
         get_path [''metadata'', ''name''] (u_template (snd (render_name e st))) =
           Some (JStr ((if flag (scratch st) then ''scratch-'' else ''isolated-'')
                        @ salt @ ''-'' @ timestamp))"
proof -
  from assms(6) obtain kvs where d: "d = JObj kvs" "map_of kvs ''metadata'' = Some (JObj md)"
    by (auto simp: getitem_Inr_iff)
  have sp: "rsplit CHR ''-'' 2 (strip_platform_suffix (up_platform (user_params st)) (up_image_tag (user_params st)))
           = [h, salt, timestamp]"
    using rsplit_two_cuts[OF assms(3,4), of h] assms(2) by simp
  show ?thesis
    using assms(1) d
    by (auto simp: render_name_def sp mutate_cur[OF assms(5)] update_conv' path_simps)
qed

text \<open>
  C3. \<^verbatim>\<open>render_name\<close> for a scratch or isolated build, on a template with a
  \<open>metadata\<close> dict. The image tag is either \<open>h-salt-timestamp-p\<close> for the platform
  \<open>p\<close> that is set, or it is \<open>h-salt-timestamp\<close> and does not end with \<open>-p\<close> for a
  platform \<open>p\<close> that is set (no platform, or an empty one, is not set); \<open>salt\<close> and
  \<open>timestamp\<close> hold no dash, so they are the last two dash-delimited segments once
  the platform suffix is off. Then the method returns and \<open>metadata.name\<close> is
  \<open>scratch-salt-timestamp\<close> for a scratch build and \<open>isolated-salt-timestamp\<close> for
  an isolated build (one that is not scratch as well: \<^verbatim>\<open>set_params\<close> admits one
  variation only, and the code tests scratch first).
\<close>

theorem render_name_variation:
  fixes e :: "'u env"
  assumes "flag (scratch st) \<or> flag (isolated st)"
    and "(\<exists>p. up_platform (user_params st) = Some p \<and> p \<noteq> [] \<and>
              up_image_tag (user_params st) = h @ ''-'' @ salt @ ''-'' @ timestamp @ ''-'' @ p)
         \<or> (up_image_tag (user_params st) = h @ ''-'' @ salt @ ''-'' @ timestamp \<and>
            (\<forall>p pre. up_platform (user_params st) = Some p \<and> p \<noteq> [] \<longrightarrow>
                      up_image_tag (user_params st) \<noteq> pre @ ''-'' @ p))"
    and "CHR ''-'' \<notin> set salt" and "CHR ''-'' \<notin> set timestamp"
    and "cur e st = Some d" and "getitem d ''metadata'' = Inr (JObj md)"
  shows "fst (render_name e st) = Inr () \<and>
         get_path [''metadata'', ''name''] (u_template (snd (render_name e st))) =
           Some (JStr ((if flag (scratch st) then ''scratch-'' else ''isolated-'')
                        @ salt @ ''-'' @ timestamp))"
proof -
  have "strip_platform_suffix (up_platform (user_params st)) (up_image_tag (user_params st))
          = h @ ''-'' @ salt @ ''-'' @ timestamp"
    using assms(2)
  proof
    assume "\<exists>p. up_platform (user_params st) = Some p \<and> p \<noteq> [] \<and>
              up_image_tag (user_params st) = h @ ''-'' @ salt @ ''-'' @ timestamp @ ''-'' @ p"
    then obtain p where p: "up_platform (user_params st) = Some p" "p \<noteq> []"
      "up_image_tag (user_params st) = (h @ ''-'' @ salt @ ''-'' @ timestamp) @ ''-'' @ p"
      by auto
    show ?thesis
      unfolding p(1) p(3) by (rule strip_platform_suffix_stripped[OF p(2)])
  next
    assume a: "up_image_tag (user_params st) = h @ ''-'' @ salt @ ''-'' @ timestamp \<and>
            (\<forall>p pre. up_platform (user_params st) = Some p \<and> p \<noteq> [] \<longrightarrow>
                      up_image_tag (user_params st) \<noteq> pre @ ''-'' @ p)"
    then have "strip_platform_suffix (up_platform (user_params st)) (up_image_tag (user_params st))
                 = up_image_tag (user_params st)"
      by (intro strip_platform_suffix_kept) blast
    with a show ?thesis by simp
  qed
  from render_name_of_stripped[OF assms(1) this assms(3,4,5,6)] show ?thesis .
qed

theorem render_name_variation_witness:
  "get_path [''metadata'', ''name'']
     (u_template (snd (render_name example_env (example_request\<lparr>scratch := Some True\<rparr>)))) =
     Some (JStr ''scratch-abc123-20200101000000'')
   \<and> get_path [''metadata'', ''name'']
     (u_template (snd (render_name example_env (example_request\<lparr>isolated := Some True\<rparr>)))) =
     Some (JStr ''isolated-abc123-20200101000000'')
   \<and> get_path [''metadata'', ''name'']
     (u_template (snd (render_name example_env
        (example_request\<lparr>isolated := Some True,
           user_params := example_params\<lparr>up_platform := Some ''x86_64'',
             up_image_tag := ''myimage-abc123-20200101000000-x86_64''\<rparr>\<rparr>)))) =
     Some (JStr ''isolated-abc123-20200101000000'')
   \<and> get_path [''metadata'', ''name'']
     (u_template (snd (render_name example_env
        (example_request\<lparr>scratch := Some True,
           user_params := example_params\<lparr>up_platform := Some ''x86_64''\<rparr>\<rparr>)))) =
     Some (JStr ''scratch-abc123-20200101000000'')"
proof -
  let ?s1 = "example_request\<lparr>scratch := Some True\<rparr>"
  let ?s2 = "example_request\<lparr>isolated := Some True\<rparr>"
  let ?s3 = "example_request\<lparr>isolated := Some True,
           user_params := example_params\<lparr>up_platform := Some ''x86_64'',
             up_image_tag := ''myimage-abc123-20200101000000-x86_64''\<rparr>\<rparr>"
  let ?s4 = "example_request\<lparr>scratch := Some True,
           user_params := example_params\<lparr>up_platform := Some ''x86_64''\<rparr>\<rparr>"
  have c: "cur example_env ?s1 = Some example_template"
          "cur example_env ?s2 = Some example_template"
          "cur example_env ?s3 = Some example_template"
          "cur example_env ?s4 = Some example_template"
    by (simp_all add: cur_def template_def example_request_def example_env_def os_path_join_def)
  have m: "getitem example_template ''metadata'' = Inr (JObj [(''name'', JStr ''{{NAME}}'')])"
    by (simp add: example_template_def path_simps)
  have f: "flag (scratch ?s1) \<or> flag (isolated ?s1)" "flag (scratch ?s2) \<or> flag (isolated ?s2)"
          "flag (scratch ?s3) \<or> flag (isolated ?s3)" "flag (scratch ?s4) \<or> flag (isolated ?s4)"
    by simp_all
  have nd: "CHR ''-'' \<notin> set ''abc123''" "CHR ''-'' \<notin> set ''20200101000000''"
    by simp_all
  have t1: "(\<exists>p. up_platform (user_params ?s1) = Some p \<and> p \<noteq> [] \<and>
              up_image_tag (user_params ?s1) = ''myimage'' @ ''-'' @ ''abc123'' @ ''-'' @ ''20200101000000'' @ ''-'' @ p)
         \<or> (up_image_tag (user_params ?s1) = ''myimage'' @ ''-'' @ ''abc123'' @ ''-'' @ ''20200101000000'' \<and>
            (\<forall>p pre. up_platform (user_params ?s1) = Some p \<and> p \<noteq> [] \<longrightarrow>
                      up_image_tag (user_params ?s1) \<noteq> pre @ ''-'' @ p))"
    by (simp add: example_request_def example_params_def)
  have t2: "(\<exists>p. up_platform (user_params ?s2) = Some p \<and> p \<noteq> [] \<and>
              up_image_tag (user_params ?s2) = ''myimage'' @ ''-'' @ ''abc123'' @ ''-'' @ ''20200101000000'' @ ''-'' @ p)
         \<or> (up_image_tag (user_params ?s2) = ''myimage'' @ ''-'' @ ''abc123'' @ ''-'' @ ''20200101000000'' \<and>
            (\<forall>p pre. up_platform (user_params ?s2) = Some p \<and> p \<noteq> [] \<longrightarrow>
                      up_image_tag (user_params ?s2) \<noteq> pre @ ''-'' @ p))"
    by (simp add: example_request_def example_params_def)
  have t3: "(\<exists>p. up_platform (user_params ?s3) = Some p \<and> p \<noteq> [] \<and>
              up_image_tag (user_params ?s3) = ''myimage'' @ ''-'' @ ''abc123'' @ ''-'' @ ''20200101000000'' @ ''-'' @ p)
         \<or> (up_image_tag (user_params ?s3) = ''myimage'' @ ''-'' @ ''abc123'' @ ''-'' @ ''20200101000000'' \<and>
            (\<forall>p pre. up_platform (user_params ?s3) = Some p \<and> p \<noteq> [] \<longrightarrow>
                      up_image_tag (user_params ?s3) \<noteq> pre @ ''-'' @ p))"
    by (simp add: example_request_def example_params_def)
  have "\<not> (\<exists>pre. ''myimage-abc123-20200101000000'' = pre @ ''-x86_64'')"
    unfolding endswith_iff[symmetric] by (simp add: endswith_def)
  then have t4: "(\<exists>p. up_platform (user_params ?s4) = Some p \<and> p \<noteq> [] \<and>
              up_image_tag (user_params ?s4) = ''myimage'' @ ''-'' @ ''abc123'' @ ''-'' @ ''20200101000000'' @ ''-'' @ p)
         \<or> (up_image_tag (user_params ?s4) = ''myimage'' @ ''-'' @ ''abc123'' @ ''-'' @ ''20200101000000'' \<and>
            (\<forall>p pre. up_platform (user_params ?s4) = Some p \<and> p \<noteq> [] \<longrightarrow>
                      up_image_tag (user_params ?s4) \<noteq> pre @ ''-'' @ p))"
    by (simp add: example_request_def example_params_def)
  have ns: "flag (scratch example_request) = False"
    by (simp add: example_request_def)
  show ?thesis
    using render_name_variation [OF f(1) t1 nd c(1) m]
          render_name_variation [OF f(2) t2 nd c(2) m]
          render_name_variation [OF f(3) t3 nd c(3) m]
          render_name_variation [OF f(4) t4 nd c(4) m]
    by (simp add: ns)
qed

text \<open>
  C4. \<^verbatim>\<open>render_node_selectors\<close>, on a template with a \<open>spec\<close> dict. For a worker
  build it returns, and \<open>spec.nodeSelector\<close> is the selector of the variation (auto
  before scratch before isolated, else the explicit one) updated with the platform
  selector: every key of the platform selector has the platform's value, every other
  key the value of the variation's selector. For any other build type the call changes
  nothing, so no node selector is set.
\<close>

theorem render_node_selectors_precedence:
  fixes e :: "'u env"
  assumes "cur e st = Some d" and "getitem d ''spec'' = Inr (JObj sp)"
    and "distinct (map fst (platform_node_selector st))"
  defines "base \<equiv>
     (if flag (is_auto st) then auto_build_node_selector st
      else if flag (scratch st) then scratch_build_node_selector st
      else if flag (isolated st) then isolated_build_node_selector st
      else explicit_build_node_selector st)"
  shows "(build_type = BUILD_TYPE_WORKER e \<longrightarrow>
            fst (render_node_selectors e build_type st) = Inr () \<and>
            (\<exists>sel. get_path [''spec'', ''nodeSelector'']
                     (u_template (snd (render_node_selectors e build_type st))) = Some (JObj sel)
                 \<and> sel = updates (platform_node_selector st) base
                 \<and> (\<forall>k. map_of sel k =
                      (case map_of (platform_node_selector st) k of
                         Some v \<Rightarrow> Some v
                       | None \<Rightarrow> map_of base k))))
       \<and> (build_type \<noteq> BUILD_TYPE_WORKER e \<longrightarrow>
            render_node_selectors e build_type st = (Inr (), st))"
proof -
  from assms(2) obtain kvs where d: "d = JObj kvs" "map_of kvs ''spec'' = Some (JObj sp)"
    by (auto simp: getitem_Inr_iff)
  have m: "\<forall>k. map_of (updates (platform_node_selector st) base) k =
             (case map_of (platform_node_selector st) k of
                Some v \<Rightarrow> Some v | None \<Rightarrow> map_of base k)"
    by (simp add: map_of_updates map_of_rev_distinct[OF assms(3)] map_add_def)
  show ?thesis
    using d m
    by (auto simp: render_node_selectors_def seq_apply ok_apply mutate_cur[OF assms(1)]
        mutate_cur[OF cur_stored] loaded_stored update_conv' base_def path_simps)
qed

theorem render_node_selectors_precedence_witness:
  "get_path [''spec'', ''nodeSelector'']
     (u_template (snd (render_node_selectors example_env ''worker''
        (example_request\<lparr>is_auto := Some True,
           auto_build_node_selector := [(''pool'', JStr ''auto'')],
           platform_node_selector := [(''zone'', JStr ''a'')]\<rparr>)))) =
     Some (JObj [(''pool'', JStr ''auto''), (''zone'', JStr ''a'')])
   \<and> render_node_selectors example_env ''orchestrator''
        (example_request\<lparr>is_auto := Some True,
           auto_build_node_selector := [(''pool'', JStr ''auto'')],
           platform_node_selector := [(''zone'', JStr ''a'')]\<rparr>) =
       (Inr (), example_request\<lparr>is_auto := Some True,
           auto_build_node_selector := [(''pool'', JStr ''auto'')],
           platform_node_selector := [(''zone'', JStr ''a'')]\<rparr>)"
proof -
  let ?st = "example_request\<lparr>is_auto := Some True,
           auto_build_node_selector := [(''pool'', JStr ''auto'')],
           platform_node_selector := [(''zone'', JStr ''a'')]\<rparr>"
  have c: "cur example_env ?st = Some example_template"
    by (simp add: cur_def template_def example_request_def example_env_def os_path_join_def)
  obtain sp where sp: "getitem example_template ''spec'' = Inr (JObj sp)"
    by (simp add: example_template_def path_simps)
  have dist: "distinct (map fst (platform_node_selector ?st))" by simp
  show ?thesis
    using render_node_selectors_precedence [OF c sp dist, of "''worker''"]
          render_node_selectors_precedence [OF c sp dist, of "''orchestrator''"]
    by (simp add: example_env_def)
qed

lemma set_reactor_config_appended:
  fixes e :: "'u env"
  assumes "cur e st = Some d" and "get_path env_path d = Some (JList envs)"
  defines "ov \<equiv> up_reactor_config_override (user_params st)"
    and "cm \<equiv> up_reactor_config_map (user_params st)"
  shows "fst (set_reactor_config e st) = Inr ()
       \<and> (\<exists>d'. cur e (snd (set_reactor_config e st)) = Some d' \<and>
            get_path env_path d' =
              Some (JList (envs @
                (if override_truthy ov
                 then [JObj [(''name'', JStr ''REACTOR_CONFIG''),
                             (''value'', JStr (yaml_safe_dump e (override_value ov)))]]
                 else if str_truthy cm
                 then [JObj [(''name'', JStr ''REACTOR_CONFIG''),
                             (''valueFrom'', JObj [(''configMapKeyRef'',
                                JObj [(''name'', json_of_str cm),
                                      (''key'', JStr ''config.yaml'')])])]]
                 else []))))
       \<and> (\<not> override_truthy ov \<and> \<not> str_truthy cm \<longrightarrow>
            set_reactor_config e st = (Inr (), st))"
proof (cases "\<not> override_truthy ov \<and> \<not> str_truthy cm")
  case True
  then show ?thesis
    using assms(1,2) by (simp add: set_reactor_config_def ov_def cm_def Let_def)
next
  case False
  let ?entry = "if override_truthy ov then inline_reactor_config e (override_value ov)
                else config_map_reactor_config cm"
  have "list_append ?entry (JList envs) = Inr (JList (envs @ [?entry]))" by simp
  from modify_at_result[where f = "list_append ?entry", OF assms(2) this] obtain d' where
    d': "modify_at env_path (list_append ?entry) d = Inr d'"
        "get_path env_path d' = Some (JList (envs @ [?entry]))" by blast
  from d'(1) have nn: "d' \<noteq> JNull" unfolding env_path_def by (rule modify_at_not_JNull)
  have run: "set_reactor_config e st = (Inr (), (loaded e st)\<lparr>u_template := d'\<rparr>)"
    using False d'(1) unfolding ov_def cm_def
    by (cases "override_truthy (up_reactor_config_override (user_params st))")
       (simp_all add: set_reactor_config_def Let_def mutate_cur[OF assms(1)])
  show ?thesis
    using False d'(2)
    by (auto simp: run cur_stored[OF nn] inline_reactor_config_def config_map_reactor_config_def)
qed

text \<open>
  C5. \<^verbatim>\<open>set_reactor_config\<close>, on a template whose
  \<open>spec.strategy.customStrategy.env\<close> is a list. When the override is a non-empty
  dict \<open>rc\<close>, the method returns and the list has grown by exactly the inline entry
  whose value is \<open>yaml.safe_dump(rc)\<close>, whether or not a config map is named as
  well. When the override is \<^verbatim>\<open>None\<close> or empty and a config map \<open>m\<close> is named, the
  list has grown by exactly the \<open>configMapKeyRef\<close> entry naming \<open>m\<close> with key
  \<open>config.yaml\<close>. When neither is set, the state is left as it was. So at most one
  entry is appended.
\<close>

theorem set_reactor_config_entry:
  fixes e :: "'u env"
  assumes "cur e st = Some d" and "get_path env_path d = Some (JList envs)"
  shows "(\<forall>rc. up_reactor_config_override (user_params st) = Some rc \<and> rc_truthy rc \<longrightarrow>
            fst (set_reactor_config e st) = Inr () \<and>
            (\<exists>d'. cur e (snd (set_reactor_config e st)) = Some d' \<and>
               get_path env_path d' =
                 Some (JList (envs @
                   [JObj [(''name'', JStr ''REACTOR_CONFIG''),
                          (''value'', JStr (yaml_safe_dump e rc))]]))))
       \<and> (\<forall>m. (up_reactor_config_override (user_params st) = None \<or>
                 (\<exists>rc. up_reactor_config_override (user_params st) = Some rc \<and> \<not> rc_truthy rc)) \<and>
                up_reactor_config_map (user_params st) = Some m \<and> m \<noteq> [] \<longrightarrow>
            fst (set_reactor_config e st) = Inr () \<and>
            (\<exists>d'. cur e (snd (set_reactor_config e st)) = Some d' \<and>
               get_path env_path d' =
                 Some (JList (envs @
                   [JObj [(''name'', JStr ''REACTOR_CONFIG''),
                          (''valueFrom'', JObj [(''configMapKeyRef'',
                             JObj [(''name'', JStr m), (''key'', JStr ''config.yaml'')])])]]))))
       \<and> ((up_reactor_config_override (user_params st) = None \<or>
            (\<exists>rc. up_reactor_config_override (user_params st) = Some rc \<and> \<not> rc_truthy rc)) \<and>
           (up_reactor_config_map (user_params st) = None \<or>
            up_reactor_config_map (user_params st) = Some []) \<longrightarrow>
            set_reactor_config e st = (Inr (), st))"
proof (intro conjI allI impI)
  fix rc
  assume a: "up_reactor_config_override (user_params st) = Some rc \<and> rc_truthy rc"
  then have t: "override_truthy (up_reactor_config_override (user_params st))"
    and v: "override_value (up_reactor_config_override (user_params st)) = rc"
    by (simp_all add: override_truthy_def override_value_def)
  from set_reactor_config_appended[OF assms] t v
  show "fst (set_reactor_config e st) = Inr ()"
    and "\<exists>d'. cur e (snd (set_reactor_config e st)) = Some d' \<and>
               get_path env_path d' =
                 Some (JList (envs @
                   [JObj [(''name'', JStr ''REACTOR_CONFIG''),
                          (''value'', JStr (yaml_safe_dump e rc))]]))"
    by simp_all
next
  fix m
  assume a: "(up_reactor_config_override (user_params st) = None \<or>
                 (\<exists>rc. up_reactor_config_override (user_params st) = Some rc \<and> \<not> rc_truthy rc)) \<and>
                up_reactor_config_map (user_params st) = Some m \<and> m \<noteq> []"
  then have t: "\<not> override_truthy (up_reactor_config_override (user_params st))"
    and c: "str_truthy (up_reactor_config_map (user_params st))"
           "json_of_str (up_reactor_config_map (user_params st)) = JStr m"
    by (auto simp: override_truthy_def)
  from set_reactor_config_appended[OF assms] t c
  show "fst (set_reactor_config e st) = Inr ()"
    and "\<exists>d'. cur e (snd (set_reactor_config e st)) = Some d' \<and>
               get_path env_path d' =
                 Some (JList (envs @
                   [JObj [(''name'', JStr ''REACTOR_CONFIG''),
                          (''valueFrom'', JObj [(''configMapKeyRef'',
                             JObj [(''name'', JStr m), (''key'', JStr ''config.yaml'')])])]]))"
    by simp_all
next
  assume a: "(up_reactor_config_override (user_params st) = None \<or>
            (\<exists>rc. up_reactor_config_override (user_params st) = Some rc \<and> \<not> rc_truthy rc)) \<and>
           (up_reactor_config_map (user_params st) = None \<or>
            up_reactor_config_map (user_params st) = Some [])"
  then have "\<not> override_truthy (up_reactor_config_override (user_params st))"
    and "\<not> str_truthy (up_reactor_config_map (user_params st))"
    by (auto simp: override_truthy_def)
  with set_reactor_config_appended[OF assms]
  show "set_reactor_config e st = (Inr (), st)" by simp
qed

theorem set_reactor_config_entry_witness:
  "(\<exists>d'. cur example_env (snd (set_reactor_config example_env
             (example_request\<lparr>user_params := example_params
                \<lparr>up_reactor_config_override :=
                   Some (empty_reactor_config\<lparr>rc_required_secrets := Some [''kojisecret'']\<rparr>),
                 up_reactor_config_map := Some ''reactor-config-map''\<rparr>\<rparr>))) = Some d' \<and>
          get_path env_path d' =
            Some (JList [JObj [(''name'', JStr ''ATOMIC_REACTOR_PLUGINS''), (''value'', JStr ''TBD'')],
                         JObj [(''name'', JStr ''REACTOR_CONFIG''),
                               (''value'', JStr ''required_secrets: kojisecret'')]]))
   \<and> (\<exists>d'. cur example_env (snd (set_reactor_config example_env
             (example_request\<lparr>user_params := example_params
                \<lparr>up_reactor_config_map := Some ''reactor-config-map''\<rparr>\<rparr>))) = Some d' \<and>
          get_path env_path d' =
            Some (JList [JObj [(''name'', JStr ''ATOMIC_REACTOR_PLUGINS''), (''value'', JStr ''TBD'')],
                         JObj [(''name'', JStr ''REACTOR_CONFIG''),
                               (''valueFrom'', JObj [(''configMapKeyRef'',
                                  JObj [(''name'', JStr ''reactor-config-map''),
                                        (''key'', JStr ''config.yaml'')])])]]))
   \<and> set_reactor_config example_env example_request = (Inr (), example_request)"
proof -
  let ?rc = "empty_reactor_config\<lparr>rc_required_secrets := Some [''kojisecret'']\<rparr>"
  let ?s1 = "example_request\<lparr>user_params := example_params
                \<lparr>up_reactor_config_override := Some ?rc,
                 up_reactor_config_map := Some ''reactor-config-map''\<rparr>\<rparr>"
  let ?s2 = "example_request\<lparr>user_params := example_params
                \<lparr>up_reactor_config_map := Some ''reactor-config-map''\<rparr>\<rparr>"
  have c: "cur example_env ?s1 = Some example_template"
          "cur example_env ?s2 = Some example_template"
          "cur example_env example_request = Some example_template"
    by (simp_all add: cur_def template_def example_request_def example_env_def os_path_join_def)
  have p: "get_path env_path example_template =
             Some (JList [JObj [(''name'', JStr ''ATOMIC_REACTOR_PLUGINS''), (''value'', JStr ''TBD'')]])"
    by (simp add: env_path_def example_template_def path_simps)
  have h1: "up_reactor_config_override (user_params ?s1) = Some ?rc \<and> rc_truthy ?rc"
    by (simp add: rc_truthy_def empty_reactor_config_def)
  have y: "yaml_safe_dump example_env ?rc = ''required_secrets: kojisecret''"
    by (simp add: example_env_def example_yaml_def empty_reactor_config_def)
  have h2: "(up_reactor_config_override (user_params ?s2) = None \<or>
              (\<exists>rc. up_reactor_config_override (user_params ?s2) = Some rc \<and> \<not> rc_truthy rc)) \<and>
            up_reactor_config_map (user_params ?s2) = Some ''reactor-config-map'' \<and>
            ''reactor-config-map'' \<noteq> []"
    by (simp add: example_params_def)
  have h3: "(up_reactor_config_override (user_params example_request) = None \<or>
              (\<exists>rc. up_reactor_config_override (user_params example_request) = Some rc \<and> \<not> rc_truthy rc)) \<and>
            (up_reactor_config_map (user_params example_request) = None \<or>
             up_reactor_config_map (user_params example_request) = Some [])"
    by (simp add: example_request_def example_params_def)
  from set_reactor_config_entry [OF c(1) p] h1 y
  have w1: "\<exists>d'. cur example_env (snd (set_reactor_config example_env ?s1)) = Some d' \<and>
          get_path env_path d' =
            Some (JList [JObj [(''name'', JStr ''ATOMIC_REACTOR_PLUGINS''), (''value'', JStr ''TBD'')],
                         JObj [(''name'', JStr ''REACTOR_CONFIG''),
                               (''value'', JStr ''required_secrets: kojisecret'')]])"
    by fastforce
  from set_reactor_config_entry [OF c(2) p] h2
  have w2: "\<exists>d'. cur example_env (snd (set_reactor_config example_env ?s2)) = Some d' \<and>
          get_path env_path d' =
            Some (JList [JObj [(''name'', JStr ''ATOMIC_REACTOR_PLUGINS''), (''value'', JStr ''TBD'')],
                         JObj [(''name'', JStr ''REACTOR_CONFIG''),
                               (''valueFrom'', JObj [(''configMapKeyRef'',
                                  JObj [(''name'', JStr ''reactor-config-map''),
                                        (''key'', JStr ''config.yaml'')])])]])"
    by fastforce
  from set_reactor_config_entry [OF c(3) p] h3
  have w3: "set_reactor_config example_env example_request = (Inr (), example_request)"
    by blast
  from w1 w2 w3 show ?thesis by blast
qed

text \<open>
  C6 (as amended). \<^verbatim>\<open>_set_required_secrets\<close>, where Python iterates a set of distinct
  names in some order without repetition, on a template whose custom strategy is a
  dict with no \<open>secrets\<close> or a list of mounts that each carry a hashable
  \<open>secretSource.name\<close>. The call returns, and a second call with the same names
  changes nothing. The first call keeps the mounts that were there and appends, for
  each required name that no mount there carries, exactly one mount with
  \<open>mountPath = os.path.join(SECRETS_PATH, name)\<close>; for no other name does it append
  anything.
\<close>

theorem set_required_secrets_idempotent:
  fixes e :: "'u env"
  assumes "\<forall>xs. distinct xs \<longrightarrow> distinct (set_iter e xs) \<and> set (set_iter e xs) = set xs"
    and "cur e st = Some d"
    and "get_path [''spec'', ''strategy'', ''customStrategy''] d = Some (JObj cs)"
    and "(map_of cs ''secrets'' = None \<and> secrets = []) \<or> map_of cs ''secrets'' = Some (JList secrets)"
    and "existing_names secrets = Inr existing"
  shows "\<exists>added st1.
           u_set_required_secrets e required_secrets st = (Inr (), st1)
         \<and> u_set_required_secrets e required_secrets st1 = (Inr (), st1)
         \<and> (required_secrets = [] \<longrightarrow> st1 = st)
         \<and> (required_secrets \<noteq> [] \<longrightarrow>
              get_path [''spec'', ''strategy'', ''customStrategy'', ''secrets''] (u_template st1) =
                Some (JList (secrets @
                  map (\<lambda>n. JObj [(''secretSource'', JObj [(''name'', JStr n)]),
                                  (''mountPath'', JStr (os_path_join (SECRETS_PATH e) n))]) added)))
         \<and> distinct added
         \<and> set added = {n \<in> set required_secrets. JStr n \<notin> set existing}"
proof (cases "required_secrets = []")
  case True
  then show ?thesis
    by (intro exI[of _ "[]"] exI[of _ st]) (simp add: u_set_required_secrets_def ok_apply)
next
  case False
  let ?p = "[''spec'', ''strategy'', ''customStrategy'']"
  let ?added = "missing_secrets e required_secrets existing"
  let ?L = "secrets @ map (secret_mount_entry e) ?added"
  let ?cs0 = "(case map_of cs ''secrets'' of None \<Rightarrow> cs @ [(''secrets'', JList [])] | Some _ \<Rightarrow> cs)"
  let ?cs1 = "AList.update ''secrets'' (JList ?L) ?cs0"
  have am: "append_missing e required_secrets (JList secrets) = Inr (JList ?L)"
    by (simp add: assms(5))
  have am2: "append_missing e required_secrets (JList ?L) = Inr (JList ?L)"
    by (simp add: existing_names_append[OF assms(5)] missing_secrets_again[OF assms(1)])
  have f1: "add_required_secrets e required_secrets (JObj cs) = Inr (JObj ?cs1)"
    using assms(4) am
    by (auto simp: add_required_secrets_def path_simps map_add_def)
  have look: "map_of ?cs1 ''secrets'' = Some (JList ?L)"
    by (simp add: update_conv')
  have f2: "add_required_secrets e required_secrets (JObj ?cs1) = Inr (JObj ?cs1)"
    using am2 look
    by (simp add: add_required_secrets_def path_simps update_triv)
  from modify_at_result[where f = "add_required_secrets e required_secrets", OF assms(3) f1]
  obtain d1 where d1: "modify_at ?p (add_required_secrets e required_secrets) d = Inr d1"
    "get_path ?p d1 = Some (JObj ?cs1)" by blast
  have nn: "d1 \<noteq> JNull" using d1(1) by (rule modify_at_not_JNull)
  let ?st1 = "(loaded e st)\<lparr>u_template := d1\<rparr>"
  have run1: "u_set_required_secrets e required_secrets st = (Inr (), ?st1)"
    using False by (simp add: u_set_required_secrets_def mutate_cur[OF assms(2)] d1(1))
  have again: "modify_at ?p (add_required_secrets e required_secrets) d1 = Inr d1"
    by (rule modify_at_id[where f = "add_required_secrets e required_secrets", OF d1(2) f2])
  have run2: "u_set_required_secrets e required_secrets ?st1 = (Inr (), ?st1)"
    using False
    by (simp add: u_set_required_secrets_def mutate_cur[OF cur_stored[OF nn]] again
        loaded_stored[OF nn])
  have "get_path (?p @ [''secrets'']) d1 = Some (JList ?L)"
    unfolding get_path_append using d1(2) look by (simp add: path_simps)
  then have g: "get_path [''spec'', ''strategy'', ''customStrategy'', ''secrets''] (u_template ?st1) =
                  Some (JList ?L)" by simp
  show ?thesis
    using False run1 run2 g missing_secrets_set[OF assms(1), of required_secrets existing]
    by (intro exI[of _ ?added] exI[of _ ?st1])
       (simp add: secret_mount_entry_def[abs_def])
qed

theorem set_required_secrets_idempotent_witness:
  "\<exists>st1. u_set_required_secrets example_env [''a'', ''a''] example_request = (Inr (), st1)
       \<and> u_set_required_secrets example_env [''a'', ''a''] st1 = (Inr (), st1)
       \<and> get_path [''spec'', ''strategy'', ''customStrategy'', ''secrets''] (u_template st1) =
           Some (JList [JObj [(''secretSource'', JObj [(''name'', JStr ''a'')]),
                              (''mountPath'', JStr ''/var/run/secrets/atomic-reactor/a'')]])"
proof -
  have it: "\<forall>xs. distinct xs \<longrightarrow>
              distinct (set_iter example_env xs) \<and> set (set_iter example_env xs) = set xs"
    by (simp add: example_env_def)
  have c: "cur example_env example_request = Some example_template"
    by (simp add: cur_def template_def example_request_def example_env_def os_path_join_def)
  obtain cs where cs: "get_path [''spec'', ''strategy'', ''customStrategy''] example_template = Some (JObj cs)"
    and none: "(map_of cs ''secrets'' = None \<and> ([] :: json list) = []) \<or> map_of cs ''secrets'' = Some (JList [])"
    by (simp add: example_template_def path_simps)
  have ex: "existing_names [] = Inr []" by simp
  from set_required_secrets_idempotent [OF it c cs none ex, of "[''a'', ''a'']"]
  obtain added st1 where
    r: "u_set_required_secrets example_env [''a'', ''a''] example_request = (Inr (), st1)"
       "u_set_required_secrets example_env [''a'', ''a''] st1 = (Inr (), st1)"
       "get_path [''spec'', ''strategy'', ''customStrategy'', ''secrets''] (u_template st1) =
          Some (JList (map (\<lambda>n. JObj [(''secretSource'', JObj [(''name'', JStr n)]),
                  (''mountPath'', JStr (os_path_join (SECRETS_PATH example_env) n))]) added))"
       "distinct added" "set added = {''a''}"
    by auto
  from r(4,5) have "added = [''a'']" by (rule distinct_set_singleton)
  with r(1,2,3) show ?thesis
    by (auto simp: example_env_def os_path_join_def)
qed

text \<open>The claim as it stands fails where the starting list already mounts a required
  name: the mount is kept as it is, with whatever path it has, and a name mounted
  twice stays mounted twice.\<close>

theorem set_required_secrets_idempotent_counterexample:
  "fst (u_set_required_secrets example_env [''a'']
          (example_request\<lparr>u_template := example_mounted_template
             [JObj [(''secretSource'', JObj [(''name'', JStr ''a'')]),
                    (''mountPath'', JStr ''/elsewhere'')]]\<rparr>)) = Inr ()
   \<and> get_path [''spec'', ''strategy'', ''customStrategy'', ''secrets'']
        (u_template (snd (u_set_required_secrets example_env [''a'']
          (example_request\<lparr>u_template := example_mounted_template
             [JObj [(''secretSource'', JObj [(''name'', JStr ''a'')]),
                    (''mountPath'', JStr ''/elsewhere'')]]\<rparr>)))) =
       Some (JList [JObj [(''secretSource'', JObj [(''name'', JStr ''a'')]),
                          (''mountPath'', JStr ''/elsewhere'')]])
   \<and> get_path [''spec'', ''strategy'', ''customStrategy'', ''secrets'']
        (u_template (snd (u_set_required_secrets example_env [''a'']
          (example_request\<lparr>u_template := example_mounted_template
             [JObj [(''secretSource'', JObj [(''name'', JStr ''a'')]),
                    (''mountPath'', JStr ''/var/run/secrets/atomic-reactor/a'')],
              JObj [(''secretSource'', JObj [(''name'', JStr ''a'')]),
                    (''mountPath'', JStr ''/var/run/secrets/atomic-reactor/a'')]]\<rparr>)))) =
       Some (JList [JObj [(''secretSource'', JObj [(''name'', JStr ''a'')]),
                          (''mountPath'', JStr ''/var/run/secrets/atomic-reactor/a'')],
                    JObj [(''secretSource'', JObj [(''name'', JStr ''a'')]),
                          (''mountPath'', JStr ''/var/run/secrets/atomic-reactor/a'')]])"
  by (simp add: u_set_required_secrets_def mutate_def and_then_apply template_when_loaded
      example_mounted_template_def add_required_secrets_def missing_secrets_def
      example_env_def path_simps)

text \<open>
  C7 (as amended). \<^verbatim>\<open>adjust_for_isolated\<close> for an isolated build, on a template with
  a \<open>spec\<close> dict and a \<open>metadata\<close> dict whose \<open>labels\<close> are absent or a dict. An
  empty or missing release raises the validation error that asks for it; a release
  that does not match \<^verbatim>\<open>ISOLATED_RELEASE_FORMAT\<close> raises the validation error that
  quotes the pattern; a matching release makes the call return with the labels
  \<open>isolated\<close> and \<open>isolated-release\<close> holding the sanitized forms of \<open>true\<close> and of
  the release. In each case the triggers are gone from the document.
\<close>

theorem adjust_for_isolated_release:
  fixes e :: "'u env"
  assumes "flag (isolated st)" and "cur e st = Some d"
    and "getitem d ''spec'' = Inr (JObj sp)"
    and "getitem d ''metadata'' = Inr (JObj md)"
    and "map_of md ''labels'' = None \<or> (\<exists>ls. map_of md ''labels'' = Some (JObj ls))"
  shows "(\<not> str_truthy release \<longrightarrow>
            fst (adjust_for_isolated e release st) =
              Inl (OsbsValidationException
                     ''The release parameter is required for isolated builds.''))
       \<and> (\<forall>r. release = Some r \<and> r \<noteq> [] \<and> \<not> ISOLATED_RELEASE_FORMAT_match e r \<longrightarrow>
            fst (adjust_for_isolated e release st) =
              Inl (OsbsValidationException
                     (''For isolated builds, the release value must be in the format: '' @
                      ISOLATED_RELEASE_FORMAT_pattern e)))
       \<and> (\<forall>r. release = Some r \<and> r \<noteq> [] \<and> ISOLATED_RELEASE_FORMAT_match e r \<longrightarrow>
            fst (adjust_for_isolated e release st) = Inr () \<and>
            get_path [''metadata'', ''labels'', ''isolated'']
              (u_template (snd (adjust_for_isolated e release st))) =
              Some (JStr (sanitize_strings_for_openshift e ''true'')) \<and>
            get_path [''metadata'', ''labels'', ''isolated-release'']
              (u_template (snd (adjust_for_isolated e release st))) =
              Some (JStr (sanitize_strings_for_openshift e r)))
       \<and> get_path [''spec'', ''triggers''] (u_template (snd (adjust_for_isolated e release st))) = None"
proof -
  let ?t = "JStr (sanitize_strings_for_openshift e ''true'')"
  from pop_triggers_succeeds[OF assms(3)] obtain d1 where
    d1: "modify_at [''spec''] (dict_pop ''triggers'') d = Inr d1" ..
  have nn1: "d1 \<noteq> JNull" using d1 by (rule modify_at_not_JNull)
  note c1 = cur_stored[OF nn1, of e "loaded e st"]
  have t1: "get_path [''spec'', ''triggers''] d1 = None"
    using pop_triggers_doc(1)[OF d1] by (simp add: triggers_of_def)
  have "get_path [''metadata''] d1 = get_path [''metadata''] d"
    by (rule pop_triggers_doc(2)[OF d1]) simp
  with assms(4) have md1: "getitem d1 ''metadata'' = Inr (JObj md)"
    by (simp only: get_path_single[symmetric])
  from set_label_doc_succeeds[OF md1 assms(5)] obtain d2 where
    d2: "modify_at [''metadata''] (store_label ''isolated'' ?t) d1 = Inr d2" ..
  have nn2: "d2 \<noteq> JNull" using d2 by (rule modify_at_not_JNull)
  note c2 = cur_stored[OF nn2, of e "loaded e st"]
  have t2: "get_path [''spec'', ''triggers''] d2 = None"
    using set_label_doc(2)[OF d2, of "[''spec'', ''triggers'']"] t1 by simp
  have l2: "map_of (labels_of d2) ''isolated'' = Some ?t"
    by (simp add: set_label_doc(1)[OF d2] update_conv')
  from set_label_doc(3)[OF d2] obtain md2 ls2 where
    md2: "getitem d2 ''metadata'' = Inr (JObj md2)" "map_of md2 ''labels'' = Some (JObj ls2)"
    by blast
  have run0: "mutate e (modify_at [''spec''] (dict_pop ''triggers'')) st =
                (Inr (), (loaded e st)\<lparr>u_template := d1\<rparr>)"
    by (simp add: mutate_cur[OF assms(2)] d1)
  show ?thesis
  proof (cases "str_truthy release")
    case False
    then show ?thesis
      using assms(1) t1
      by (cases release) (auto simp: adjust_for_isolated_def seq_apply run0 raise_apply)
  next
    case True
    then obtain r where r: "release = Some r" "r \<noteq> []" by (cases release) auto
    show ?thesis
    proof (cases "ISOLATED_RELEASE_FORMAT_match e r")
      case False
      then show ?thesis
        using assms(1) t1 r
        by (auto simp: adjust_for_isolated_def seq_apply run0 raise_apply)
    next
      case True
      let ?r = "JStr (sanitize_strings_for_openshift e r)"
      from set_label_doc_succeeds[OF md2(1), of "''isolated-release''" ?r] md2(2) obtain d3 where
        d3: "modify_at [''metadata''] (store_label ''isolated-release'' ?r) d2 = Inr d3" by blast
      have t3: "get_path [''spec'', ''triggers''] d3 = None"
        using set_label_doc(2)[OF d3, of "[''spec'', ''triggers'']"] t2 by simp
      have l3: "labels_of d3 = AList.update ''isolated-release'' ?r (labels_of d2)"
        by (rule set_label_doc(1)[OF d3])
      from set_label_doc(3)[OF d3] obtain md3 ls3 where
        md3: "getitem d3 ''metadata'' = Inr (JObj md3)" "map_of md3 ''labels'' = Some (JObj ls3)"
        by blast
      then have lo: "labels_of d3 = ls3" by (simp add: labels_of_def path_simps)
      have look: "get_path [''metadata'', ''labels'', ''isolated''] d3 = Some ?t"
                 "get_path [''metadata'', ''labels'', ''isolated-release''] d3 = Some ?r"
        using md3 l3 l2 lo by (auto simp: update_conv' path_simps)
      have run: "adjust_for_isolated e release st = (Inr (), (loaded e st)\<lparr>u_template := d3\<rparr>)"
        using assms(1) r True
        by (simp add: adjust_for_isolated_def seq_apply run0 set_label_cur[OF c1] d2
            loaded_stored[OF nn1] set_label_cur[OF c2] d3 loaded_stored[OF nn2])
      show ?thesis
        unfolding run using r True look t3 by simp
    qed
  qed
qed

theorem adjust_for_isolated_release_witness:
  "fst (adjust_for_isolated example_env (Some ''1.0.1'') (example_request\<lparr>isolated := Some True\<rparr>)) = Inr ()
   \<and> get_path [''metadata'', ''labels'', ''isolated'']
        (u_template (snd (adjust_for_isolated example_env (Some ''1.0.1'')
           (example_request\<lparr>isolated := Some True\<rparr>)))) = Some (JStr ''true'')
   \<and> get_path [''metadata'', ''labels'', ''isolated-release'']
        (u_template (snd (adjust_for_isolated example_env (Some ''1.0.1'')
           (example_request\<lparr>isolated := Some True\<rparr>)))) = Some (JStr ''1.0.1'')
   \<and> fst (adjust_for_isolated example_env (Some ''1'') (example_request\<lparr>isolated := Some True\<rparr>)) =
         Inl (OsbsValidationException
                (''For isolated builds, the release value must be in the format: '' @
                 ''<digits>.<digits>[.<suffix>]''))
   \<and> fst (adjust_for_isolated example_env None (example_request\<lparr>isolated := Some True\<rparr>)) =
         Inl (OsbsValidationException ''The release parameter is required for isolated builds.'')"
proof -
  let ?st = "example_request\<lparr>isolated := Some True\<rparr>"
  have f: "flag (isolated ?st)" by simp
  have c: "cur example_env ?st = Some example_template"
    by (simp add: cur_def template_def example_request_def example_env_def os_path_join_def)
  obtain sp where sp: "getitem example_template ''spec'' = Inr (JObj sp)"
    by (simp add: example_template_def)
  have md: "getitem example_template ''metadata'' = Inr (JObj [(''name'', JStr ''{{NAME}}'')])"
    by (simp add: example_template_def)
  have l: "map_of [(''name'', JStr ''{{NAME}}'')] ''labels'' = None \<or>
           (\<exists>ls. map_of [(''name'', JStr ''{{NAME}}'')] ''labels'' = Some (JObj ls))"
    by simp
  have m: "ISOLATED_RELEASE_FORMAT_match example_env ''1.0.1''"
          "\<not> ISOLATED_RELEASE_FORMAT_match example_env ''1''"
    by (simp_all add: example_env_def example_release_format_def is_digit_def)
  show ?thesis
    using adjust_for_isolated_release [OF f c sp md l, of "Some ''1.0.1''"]
          adjust_for_isolated_release [OF f c sp md l, of "Some ''1''"]
          adjust_for_isolated_release [OF f c sp md l, of None]
          m
    by (simp add: example_env_def)
qed

text \<open>The claim as it stands, that the label holds the release itself, fails for a
  release the format admits and the sanitizer changes.\<close>

theorem adjust_for_isolated_release_counterexample:
  "ISOLATED_RELEASE_FORMAT_match example_env ''1.0.1/x''
   \<and> fst (adjust_for_isolated example_env (Some ''1.0.1/x'')
           (example_request\<lparr>isolated := Some True\<rparr>)) = Inr ()
   \<and> get_path [''metadata'', ''labels'', ''isolated-release'']
        (u_template (snd (adjust_for_isolated example_env (Some ''1.0.1/x'')
           (example_request\<lparr>isolated := Some True\<rparr>)))) = Some (JStr ''1.0.1x'')"
proof -
  let ?st = "example_request\<lparr>isolated := Some True\<rparr>"
  have c: "cur example_env ?st = Some example_template"
    by (simp add: cur_def template_def example_request_def example_env_def os_path_join_def)
  have m: "ISOLATED_RELEASE_FORMAT_match example_env ''1.0.1/x''"
    by (simp add: example_env_def example_release_format_def is_digit_def)
  have s: "sanitize_strings_for_openshift example_env ''1.0.1/x'' = ''1.0.1x''"
          "sanitize_strings_for_openshift example_env ''true'' = ''true''"
    by (simp_all add: example_env_def)
  show ?thesis
    using m
    by (simp add: adjust_for_isolated_def seq_apply raise_apply set_label_def store_label_def
        mutate_cur[OF c] mutate_cur[OF cur_stored] loaded_stored s
        example_template_def path_simps)
qed

text \<open>
  C9 (as amended). The \<^verbatim>\<open>template\<close> property. Once an access has returned a document
  (a dict, or anything but \<^verbatim>\<open>None\<close>), every later access returns that document and
  leaves the state, the count of file reads included, as it is. No access reads the
  file more than once. While nothing is loaded, a file that cannot be opened or read
  makes the access raise \<^verbatim>\<open>OsbsException\<close> (the spec's ConfigError) and leaves the
  state as it was; content that is not JSON makes it raise the \<^verbatim>\<open>ValueError\<close> of
  \<^verbatim>\<open>json.load\<close>, which the property does not catch (the spec's FormatError). A failed
  load is not remembered: the next access opens and reads the file again.
\<close>

theorem template_memoized:
  fixes e :: "'u env"
  shows "(template e st = (Inr d, st') \<and> d \<noteq> JNull \<longrightarrow> template e st' = (Inr d, st'))
       \<and> file_reads (snd (template e st)) \<le> Suc (file_reads st)
       \<and> (u_template st \<noteq> JNull \<longrightarrow> template e st = (Inr (u_template st), st))
       \<and> (u_template st = JNull \<and>
            read_file e (os_path_join (build_json_store st) (u_outer_template_path st)) = Inl ex \<longrightarrow>
            template e st =
              (Inl (OsbsException
                 (''Can'' @ apostrophe @ ''t open template '' @ apostrophe @
                  os_path_join (build_json_store st) (u_outer_template_path st) @ apostrophe @
                  '': '' @ ex)), st))
       \<and> (u_template st = JNull \<and>
            read_file e (os_path_join (build_json_store st) (u_outer_template_path st)) = Inr content \<and>
            json_load e content = None \<longrightarrow>
            template e st = (Inl ValueError, st\<lparr>file_reads := Suc (file_reads st)\<rparr>) \<and>
            template e (snd (template e st)) =
              (Inl ValueError, st\<lparr>file_reads := Suc (Suc (file_reads st))\<rparr>))"
proof (intro conjI impI)
  assume "template e st = (Inr d, st') \<and> d \<noteq> JNull"
  then show "template e st' = (Inr d, st')"
    by (auto simp: template_def Let_def split: sum.splits option.splits if_splits)
next
  show "file_reads (snd (template e st)) \<le> Suc (file_reads st)"
    by (simp add: template_def Let_def split: sum.splits option.splits)
next
  assume "u_template st \<noteq> JNull"
  then show "template e st = (Inr (u_template st), st)"
    by (simp add: template_def)
next
  assume "u_template st = JNull \<and>
            read_file e (os_path_join (build_json_store st) (u_outer_template_path st)) = Inl ex"
  then show "template e st =
              (Inl (OsbsException
                 (''Can'' @ apostrophe @ ''t open template '' @ apostrophe @
                  os_path_join (build_json_store st) (u_outer_template_path st) @ apostrophe @
                  '': '' @ ex)), st)"
    by (simp add: template_def Let_def)
next
  assume a: "u_template st = JNull \<and>
            read_file e (os_path_join (build_json_store st) (u_outer_template_path st)) = Inr content \<and>
            json_load e content = None"
  then show first: "template e st = (Inl ValueError, st\<lparr>file_reads := Suc (file_reads st)\<rparr>)"
    by (simp add: template_def Let_def)
  from a show "template e (snd (template e st)) =
              (Inl ValueError, st\<lparr>file_reads := Suc (Suc (file_reads st))\<rparr>)"
    unfolding first by (simp add: template_def Let_def)
qed

theorem template_memoized_witness:
  "template example_env example_request =
     (Inr example_template, example_request\<lparr>u_template := example_template, file_reads := 1\<rparr>)
   \<and> template example_env (example_request\<lparr>u_template := example_template, file_reads := 1\<rparr>) =
     (Inr example_template, example_request\<lparr>u_template := example_template, file_reads := 1\<rparr>)
   \<and> fst (template example_env (example_request\<lparr>u_outer_template_path := ''missing.json''\<rparr>)) =
       Inl (OsbsException (''Can'' @ apostrophe @ ''t open template '' @ apostrophe @
              ''/store/missing.json'' @ apostrophe @ '': IOError()''))
   \<and> fst (template example_env (example_request\<lparr>u_outer_template_path := ''broken.json''\<rparr>)) =
       Inl ValueError"
proof -
  let ?st' = "example_request\<lparr>u_template := example_template, file_reads := 1\<rparr>"
  let ?sm = "example_request\<lparr>u_outer_template_path := ''missing.json''\<rparr>"
  let ?sb = "example_request\<lparr>u_outer_template_path := ''broken.json''\<rparr>"
  have t: "template example_env example_request = (Inr example_template, ?st')"
    by (simp add: template_def example_request_def example_env_def os_path_join_def)
  have nn: "example_template \<noteq> JNull" by (simp add: example_template_def)
  have pm: "os_path_join (build_json_store ?sm) (u_outer_template_path ?sm) = ''/store/missing.json''"
    by (simp add: example_request_def os_path_join_def)
  have m: "u_template ?sm = JNull"
          "read_file example_env (os_path_join (build_json_store ?sm) (u_outer_template_path ?sm)) =
             Inl ''IOError()''"
    unfolding pm by (simp_all add: example_request_def example_env_def)
  have pb: "os_path_join (build_json_store ?sb) (u_outer_template_path ?sb) = ''/store/broken.json''"
    by (simp add: example_request_def os_path_join_def)
  have b: "u_template ?sb = JNull"
          "read_file example_env (os_path_join (build_json_store ?sb) (u_outer_template_path ?sb)) =
             Inr ''{''"
          "json_load example_env ''{'' = None"
    unfolding pb by (simp_all add: example_request_def example_env_def)
  have w1: "template example_env ?st' = (Inr example_template, ?st')"
    using template_memoized [of example_env example_request example_template ?st'] t nn
    by blast
  have "template example_env ?sm =
          (Inl (OsbsException (''Can'' @ apostrophe @ ''t open template '' @ apostrophe @
             os_path_join (build_json_store ?sm) (u_outer_template_path ?sm) @ apostrophe @
             '': '' @ ''IOError()'')), ?sm)"
    using template_memoized [of example_env ?sm _ _ "''IOError()''"] m by blast
  then have w2: "fst (template example_env ?sm) =
       Inl (OsbsException (''Can'' @ apostrophe @ ''t open template '' @ apostrophe @
              ''/store/missing.json'' @ apostrophe @ '': IOError()''))"
    unfolding pm by simp
  have "template example_env ?sb = (Inl ValueError, ?sb\<lparr>file_reads := Suc (file_reads ?sb)\<rparr>)"
    using template_memoized [of example_env ?sb _ _ _ "''{''"] b by blast
  then have w3: "fst (template example_env ?sb) = Inl ValueError"
    by simp
  show ?thesis using t w1 w2 w3 by blast
qed

text \<open>The claim as it stands, that the file is read at most once, fails: after a load
  that failed because the content is not JSON the second access reads the file again,
  and so does the second access to a template file that holds \<^verbatim>\<open>null\<close>.\<close>

theorem template_memoized_counterexample:
  "fst (template example_env (example_request\<lparr>u_outer_template_path := ''broken.json''\<rparr>)) =
       Inl ValueError
   \<and> file_reads (snd (template example_env
        (snd (template example_env (example_request\<lparr>u_outer_template_path := ''broken.json''\<rparr>))))) = 2
   \<and> fst (template example_env (example_request\<lparr>u_outer_template_path := ''null.json''\<rparr>)) = Inr JNull
   \<and> file_reads (snd (template example_env
        (snd (template example_env (example_request\<lparr>u_outer_template_path := ''null.json''\<rparr>))))) = 2"
  by (simp add: template_def example_request_def example_env_def os_path_join_def)

end
